theory Spec2Isabelle
  imports Complex_Main "HOL-Library.Word" "HOL-Library.Monad_Syntax"
begin

unbundle bit_operations_syntax

section \<open>Data model of \<^verbatim>\<open>market_data_processor.hpp\<close>\<close>

text \<open>
  Machine integers are words of the declared width (\<^verbatim>\<open>uint8_t\<close>, \<^verbatim>\<open>uint32_t\<close>,
  \<^verbatim>\<open>uint64_t\<close> and \<^verbatim>\<open>size_t\<close>), so every integer operation wraps as in the source.
  A \<^verbatim>\<open>float\<close> is modelled by a real number: rounding is outside the model, and
  every statement about a float field below is a statement about the exact value of
  the expression the source evaluates. The exact value is the value of a \<^verbatim>\<open>float\<close>
  only while it stays within the finite range of binary32; the one quantity of the
  program that leaves this range is the price of a symbol, so the price and the quotes
  of a generated tick are modelled a second time, by \<open>generate_tick_binary32\<close>, with
  the infinities and NaN of binary32.
  A pointer is an \<open>option\<close>: \<open>None\<close> is the null pointer and \<open>Some v\<close> points to an
  object holding \<open>v\<close>. Undefined behaviour (a modulo by zero, an out-of-range
  conversion, a write outside a caller's buffer) is the result \<open>None\<close> of the
  operation.
\<close>

type_synonym u8 = "8 word"
type_synonym u32 = "32 word"
type_synonym u64 = "64 word"

record MarketTick =
  timestamp_ns :: u64
  symbol_id :: u32
  bid_price :: real
  ask_price :: real
  bid_size :: u32
  ask_size :: u32
  last_price :: real
  volume :: u32
  venue_id :: u8
  spread_bps :: real

record VenueInfo =
  name :: string
  maker_fee :: real
  taker_fee :: real
  rebate :: real
  base_latency_us :: u32
  jitter_range_us :: u32

record SymbolState =
  current_price :: real
  volatility :: real
  avg_volume :: u32
  tick_multiplier :: u32
  last_update_ns :: u64
  price_trend :: real
  symbol_name :: string

text \<open>
  The generator object. \<open>symbols\<close> and \<open>venues\<close> are the two \<^verbatim>\<open>std::array\<close>s of fixed
  capacity; \<open>num_symbols\<close> and \<open>num_venues\<close> count the configured entries.
\<close>

record HighFrequencyTickGenerator =
  symbols :: "SymbolState list"
  venues :: "VenueInfo list"
  rng_state :: u64
  total_ticks_generated :: u64
  generation_time_ns :: u64
  num_symbols :: u64
  num_venues :: u64
  target_tick_interval_ns :: u64

definition MAX_SYMBOLS :: nat where
  "MAX_SYMBOLS = 64"

definition MAX_VENUES :: nat where
  "MAX_VENUES = 8"

text \<open>
  The readings of \<^verbatim>\<open>high_resolution_clock::now()\<close> that one call of \<open>generate_tick\<close>
  makes, in nanoseconds: at entry, when the symbol is updated, and at exit.
\<close>

record clock_reads =
  start_time :: u64
  now_ns :: u64
  end_time :: u64

section \<open>The tables of \<^verbatim>\<open>market_data_processor.cpp\<close>\<close>

definition DEFAULT_SYMBOLS :: "string list" where
  "DEFAULT_SYMBOLS =
    [''AAPL'', ''MSFT'', ''GOOGL'', ''TSLA'', ''NVDA'', ''META'', ''AMZN'', ''NFLX'',
     ''JPM'', ''BAC'', ''WFC'', ''GS'', ''C'', ''JNJ'', ''PFE'', ''UNH'', ''ABBV'',
     ''PG'', ''KO'', ''XOM'', ''CVX'', ''DIS'', ''SPY'', ''QQQ'', ''IWM'', ''GLD'', ''TLT'']"

definition DEFAULT_VENUES :: "VenueInfo list" where
  "DEFAULT_VENUES =
    [\<lparr>name = ''NYSE'', maker_fee = 0.0003, taker_fee = 0.0003, rebate = 0.0001,
       base_latency_us = 250, jitter_range_us = 50\<rparr>,
     \<lparr>name = ''NASDAQ'', maker_fee = 0.0003, taker_fee = 0.0003, rebate = 0.0001,
       base_latency_us = 230, jitter_range_us = 45\<rparr>,
     \<lparr>name = ''ARCA'', maker_fee = 0.0002, taker_fee = 0.0003, rebate = 0.0002,
       base_latency_us = 240, jitter_range_us = 40\<rparr>,
     \<lparr>name = ''IEX'', maker_fee = 0.0000, taker_fee = 0.0009, rebate = 0.0000,
       base_latency_us = 400, jitter_range_us = 100\<rparr>,
     \<lparr>name = ''CBOE'', maker_fee = 0.0002, taker_fee = 0.0003, rebate = 0.0001,
       base_latency_us = 280, jitter_range_us = 60\<rparr>]"

definition BASE_PRICES :: "real list" where
  "BASE_PRICES =
    [227.21, 521.75, 201.00, 339.18, 182.09, 765.52, 221.37, 1218.37,
     289.71, 46.19, 77.61, 719.33, 92.31, 174.04, 24.61, 252.41, 198.64,
     155.03, 70.79, 105.88, 153.54, 112.58, 635.82, 572.75, 220.28, 308.60, 87.41]"

definition TICK_MULTIPLIERS :: "u32 list" where
  "TICK_MULTIPLIERS =
    [5, 5, 4, 6, 6, 5, 4, 4, 3, 3, 3, 3, 3, 2, 2, 3, 2, 2, 2, 3, 3, 2, 8, 7, 6, 2, 1]"

section \<open>The pseudo-random core\<close>

text \<open>
  \<^verbatim>\<open>xorshift64\<close> stores the new state and returns it, so the model is one function from
  the old state to the new one, which is also the value drawn.
\<close>

definition xorshift64 :: "u64 \<Rightarrow> u64" where
  "xorshift64 x0 =
    (let x1 = x0 XOR push_bit 13 x0;
         x2 = x1 XOR drop_bit 7 x1;
         x3 = x2 XOR push_bit 17 x2
     in x3)"

definition fast_random_float :: "u64 \<Rightarrow> real \<Rightarrow> real \<Rightarrow> real \<times> u64" where
  "fast_random_float s lo hi =
    (let r = xorshift64 s;
         normalized = real (unat (r AND 0xFFFFFF)) / 16777216
     in (lo + normalized * (hi - lo), r))"

text \<open>
  \<^verbatim>\<open>min + (xorshift64() % (max - min + 1))\<close>: the range is computed in 32 bits, the
  remainder and the sum in 64 bits, and the result is cut to 32 bits on return. A
  range that wraps to zero is a remainder by zero.
\<close>

definition fast_random_uint32 :: "u64 \<Rightarrow> u32 \<Rightarrow> u32 \<Rightarrow> (u32 \<times> u64) option" where
  "fast_random_uint32 s lo hi =
    (let r = xorshift64 s;
         range = hi - lo + 1
     in if range = 0 then None
        else Some (ucast ((ucast lo :: u64) + r mod (ucast range :: u64)), r))"

text \<open>
  \<^verbatim>\<open>static_cast<uint32_t>\<close> of a float truncates towards zero and is undefined when
  the truncated value does not fit.
\<close>

definition float_to_uint32 :: "real \<Rightarrow> u32 option" where
  "float_to_uint32 x =
    (if - 1 < x \<and> x < 4294967296
     then Some (word_of_int (if 0 \<le> x then \<lfloor>x\<rfloor> else \<lceil>x\<rceil>))
     else None)"

section \<open>The tick generator\<close>

definition set_target_frequency :: "HighFrequencyTickGenerator \<Rightarrow> u32 \<Rightarrow> HighFrequencyTickGenerator" where
  "set_target_frequency g ticks_per_second =
    g\<lparr>target_tick_interval_ns :=
        (if ticks_per_second > 0 then 1000000000 div ucast ticks_per_second else 1000000)\<rparr>"

definition reset_performance_counters :: "HighFrequencyTickGenerator \<Rightarrow> HighFrequencyTickGenerator" where
  "reset_performance_counters g = g\<lparr>total_ticks_generated := 0, generation_time_ns := 0\<rparr>"

text \<open>The first loop of \<open>initialize_symbols\<close>, from index \<open>i\<close> on.\<close>

function init_symbol_loop ::
  "string list \<Rightarrow> nat \<Rightarrow> nat \<Rightarrow> SymbolState list \<Rightarrow> u64 \<Rightarrow> (SymbolState list \<times> u64) option"
where
  "init_symbol_loop symbol_names n i syms s =
    (if i < n then
       (let (vol, s1) = fast_random_float s 0.15 0.45 in
        case fast_random_uint32 s1 10000 100000 of
          None \<Rightarrow> None
        | Some (av, s2) \<Rightarrow>
            (let (trend, s3) = fast_random_float s2 (- 0.02) 0.02;
                 entry = \<lparr>current_price = (if i < length BASE_PRICES then BASE_PRICES ! i else 100),
                          volatility = vol,
                          avg_volume = av,
                          tick_multiplier =
                            (if i < length TICK_MULTIPLIERS then TICK_MULTIPLIERS ! i else 3),
                          last_update_ns = 0,
                          price_trend = trend,
                          symbol_name = symbol_names ! i\<rparr>
             in init_symbol_loop symbol_names n (Suc i) (syms[i := entry]) s3))
     else Some (syms, s))"
  by pat_completeness auto
termination
  by (relation "measure (\<lambda>(symbol_names, n, i, syms, s). n - i)") auto

text \<open>The second loop of \<open>initialize_symbols\<close>.\<close>

function init_venue_loop :: "VenueInfo list \<Rightarrow> nat \<Rightarrow> nat \<Rightarrow> VenueInfo list \<Rightarrow> VenueInfo list" where
  "init_venue_loop venue_configs n i vs =
    (if i < n then init_venue_loop venue_configs n (Suc i) (vs[i := venue_configs ! i]) else vs)"
  by pat_completeness auto
termination
  by (relation "measure (\<lambda>(venue_configs, n, i, vs). n - i)") auto

definition initialize_symbols ::
  "HighFrequencyTickGenerator \<Rightarrow> string list \<Rightarrow> VenueInfo list \<Rightarrow> HighFrequencyTickGenerator option"
where
  "initialize_symbols g symbol_names venue_configs =
    (let ns = min (length symbol_names) MAX_SYMBOLS;
         nv = min (length venue_configs) MAX_VENUES
     in case init_symbol_loop symbol_names ns 0 (symbols g) (rng_state g) of
          None \<Rightarrow> None
        | Some (syms, s) \<Rightarrow>
            Some (g\<lparr>symbols := syms,
                    venues := init_venue_loop venue_configs nv 0 (venues g),
                    rng_state := s,
                    num_symbols := of_nat ns,
                    num_venues := of_nat nv\<rparr>))"

text \<open>
  The constructor. The two arrays start with whatever the allocation holds
  (\<open>raw_symbols\<close>, \<open>raw_venues\<close>); the random state is seeded from the clock.
\<close>

definition create_tick_generator ::
  "SymbolState list \<Rightarrow> VenueInfo list \<Rightarrow> u64 \<Rightarrow> u32 \<Rightarrow> HighFrequencyTickGenerator option"
where
  "create_tick_generator raw_symbols raw_venues now ticks_per_second =
    initialize_symbols
      (set_target_frequency
         \<lparr>symbols = raw_symbols, venues = raw_venues, rng_state = now,
          total_ticks_generated = 0, generation_time_ns = 0,
          num_symbols = 0, num_venues = 0, target_tick_interval_ns = 0\<rparr>
         ticks_per_second)
      DEFAULT_SYMBOLS DEFAULT_VENUES"

text \<open>The loop that adds up \<open>total_weight\<close>, from index \<open>i\<close> on.\<close>

function sum_weights :: "SymbolState list \<Rightarrow> nat \<Rightarrow> nat \<Rightarrow> u32 \<Rightarrow> u32" where
  "sum_weights syms n i total_weight =
    (if i < n then sum_weights syms n (Suc i) (total_weight + tick_multiplier (syms ! i))
     else total_weight)"
  by pat_completeness auto
termination
  by (relation "measure (\<lambda>(syms, n, i, total_weight). n - i)") auto

text \<open>
  The selection scan, from index \<open>i\<close> on: the index at which the loop breaks, or the
  initial value 0 of \<open>selected_symbol\<close> when it runs to the end.
\<close>

function weight_scan :: "SymbolState list \<Rightarrow> nat \<Rightarrow> u32 \<Rightarrow> nat \<Rightarrow> u32 \<Rightarrow> nat" where
  "weight_scan syms n random_weight i cumulative_weight =
    (if i < n then
       (let cumulative_weight' = cumulative_weight + tick_multiplier (syms ! i)
        in if random_weight < cumulative_weight' then i
           else weight_scan syms n random_weight (Suc i) cumulative_weight')
     else 0)"
  by pat_completeness auto
termination
  by (relation "measure (\<lambda>(syms, n, random_weight, i, cumulative_weight). n - i)") auto

text \<open>
  One call of \<open>generate_tick\<close>. Prices and quotes are the exact values of the source's
  expressions; \<open>generate_tick_binary32\<close> below computes the new price and the quotes of
  the same call in the range of binary32, where the product with the price can overflow.
\<close>

definition generate_tick ::
  "HighFrequencyTickGenerator \<Rightarrow> clock_reads \<Rightarrow> (MarketTick \<times> HighFrequencyTickGenerator) option"
where
  "generate_tick g clk = do {
     let total_weight = sum_weights (symbols g) (unat (num_symbols g)) 0 0;
     (random_weight, s1) \<leftarrow> fast_random_uint32 (rng_state g) 0 (total_weight - 1);
     let selected_symbol = weight_scan (symbols g) (unat (num_symbols g)) random_weight 0 0;
     let symbol = symbols g ! selected_symbol;
     let (drawn_change, s2) =
           fast_random_float s1 (- volatility symbol * 0.01) (volatility symbol * 0.01);
     let price_change = drawn_change + price_trend symbol * 0.001;
     let new_price = max (current_price symbol * (1 + price_change)) 0.01;
     let (drawn_spread, s3) = fast_random_float s2 0.5 3.0;
     let spread = (if current_price symbol > 500 then drawn_spread * 2 else drawn_spread);
     let spread_dollars = (spread / 10000) * new_price;
     let bid = new_price - spread_dollars * 0.5;
     let ask = new_price + spread_dollars * 0.5;
     volume_lo \<leftarrow> float_to_uint32 (real (unat (avg_volume symbol)) * 0.1);
     volume_hi \<leftarrow> float_to_uint32 (real (unat (avg_volume symbol)) * 2.0);
     (vol, s4) \<leftarrow> fast_random_uint32 s3 volume_lo volume_hi;
     (venue_idx, s5) \<leftarrow> fast_random_uint32 s4 0 (ucast (num_venues g - 1));
     let symbol' = symbol\<lparr>current_price := new_price, last_update_ns := now_ns clk\<rparr>;
     (bsize, s6) \<leftarrow> fast_random_uint32 s5 100 10000;
     (asize, s7) \<leftarrow> fast_random_uint32 s6 100 10000;
     let tick = \<lparr>timestamp_ns = last_update_ns symbol',
                 symbol_id = of_nat selected_symbol,
                 bid_price = bid,
                 ask_price = ask,
                 bid_size = bsize,
                 ask_size = asize,
                 last_price = new_price,
                 volume = vol,
                 venue_id = ucast venue_idx,
                 spread_bps = spread\<rparr>;
     Some (tick,
           g\<lparr>symbols := (symbols g)[selected_symbol := symbol'],
             rng_state := s7,
             total_ticks_generated := total_ticks_generated g + 1,
             generation_time_ns := generation_time_ns g + (end_time clk - start_time clk)\<rparr>)
   }"

text \<open>
  The loop of \<open>generate_tick_batch\<close>, from index \<open>i\<close> on. \<open>clks i\<close> holds the clock
  readings of the \<open>i\<close>-th call of \<open>generate_tick\<close>. The output buffer is the caller's: a
  write at or beyond its length is outside the buffer.
\<close>

function batch_loop ::
  "HighFrequencyTickGenerator \<Rightarrow> (nat \<Rightarrow> clock_reads) \<Rightarrow> MarketTick list \<Rightarrow> nat \<Rightarrow> nat
     \<Rightarrow> (MarketTick list \<times> HighFrequencyTickGenerator) option"
where
  "batch_loop g clks output_buffer count i =
    (if i < count then
       (if i < length output_buffer then
          (case generate_tick g (clks i) of
             None \<Rightarrow> None
           | Some (tick, g1) \<Rightarrow>
               (let buffer1 = output_buffer[i := tick] in
                if 0 < i then
                  (case fast_random_uint32 (rng_state g1) 0
                          (ucast (target_tick_interval_ns g1 div 10)) of
                     None \<Rightarrow> None
                   | Some (jitter, s) \<Rightarrow>
                       batch_loop (g1\<lparr>rng_state := s\<rparr>) clks
                         (buffer1[i := (buffer1 ! i)
                            \<lparr>timestamp_ns := timestamp_ns (buffer1 ! (i - 1)) +
                               (target_tick_interval_ns g1 + ucast jitter)\<rparr>])
                         count (Suc i))
                else batch_loop g1 clks buffer1 count (Suc i)))
        else None)
     else Some (output_buffer, g))"
  by pat_completeness auto
termination
  by (relation "measure (\<lambda>(g, clks, output_buffer, count, i). count - i)") auto

definition generate_tick_batch ::
  "HighFrequencyTickGenerator \<Rightarrow> (nat \<Rightarrow> clock_reads) \<Rightarrow> u64 \<Rightarrow> u64 \<Rightarrow> MarketTick list \<Rightarrow> nat
     \<Rightarrow> (MarketTick list \<times> HighFrequencyTickGenerator) option"
where
  "generate_tick_batch g clks batch_start batch_end output_buffer count =
    (case batch_loop g clks output_buffer count 0 of
       None \<Rightarrow> None
     | Some (buffer', g') \<Rightarrow>
         Some (buffer',
               g'\<lparr>generation_time_ns := generation_time_ns g' + (batch_end - batch_start)\<rparr>))"

section \<open>The price and the quotes of a tick in the range of binary32\<close>












section \<open>The market data processor\<close>

record ProcessingStats =
  ticks_processed :: u64
  processing_time_ns :: u64
  feature_calculations :: u64

record MarketDataProcessor =
  stats :: ProcessingStats

record MLFeatures =
  price_change :: real
  volume_ratio :: real
  spread_bps :: real
  volatility_5min :: real
  momentum_1min :: real
  liquidity_score :: real
  venue_preference :: real
  timestamp_ns :: u64

record RiskMetrics =
  position_risk :: real
  market_impact_estimate :: real
  execution_cost_estimate :: real
  risk_limit_exceeded :: bool

text \<open>The loop that adds up prices and volumes of the recent window, from index \<open>i\<close> on.\<close>

function history_sums :: "MarketTick list \<Rightarrow> nat \<Rightarrow> nat \<Rightarrow> real \<Rightarrow> real \<Rightarrow> real \<times> real" where
  "history_sums history_buffer history_size i price_sum volume_sum =
    (if i < history_size then
       history_sums history_buffer history_size (Suc i)
         (price_sum + last_price (history_buffer ! i))
         (volume_sum + real (unat (volume (history_buffer ! i))))
     else (price_sum, volume_sum))"
  by pat_completeness auto
termination
  by (relation "measure (\<lambda>(history_buffer, history_size, i, price_sum, volume_sum). history_size - i)")
    auto

text \<open>The loop that adds up the squared deviations from \<open>avg_price\<close>, from index \<open>i\<close> on.\<close>

function history_variance :: "MarketTick list \<Rightarrow> nat \<Rightarrow> nat \<Rightarrow> real \<Rightarrow> real \<Rightarrow> real" where
  "history_variance history_buffer history_size i avg_price variance_sum =
    (if i < history_size then
       (let diff = last_price (history_buffer ! i) - avg_price
        in history_variance history_buffer history_size (Suc i) avg_price
             (variance_sum + diff * diff))
     else variance_sum)"
  by pat_completeness auto
termination
  by (relation "measure (\<lambda>(history_buffer, history_size, i, avg_price, variance_sum). history_size - i)")
    auto

text \<open>
  \<open>process_tick\<close>. The local \<^verbatim>\<open>MLFeatures features;\<close> has no initialiser: it starts with
  whatever its storage holds, the argument \<open>features0\<close>, and a field the function does
  not assign keeps that content. \<open>history_buffer\<close> is the caller's pointer and
  \<open>history_size\<close> the caller's count; a read at or beyond the length of the buffer is
  outside it. \<open>t_start\<close> and \<open>t_end\<close> are the two clock readings.
  \<^verbatim>\<open>std::log\<close> at 0 is minus infinity, which a real number cannot hold: where the
  32-bit sum is 0 the model's \<open>liquidity_score\<close> stands for it, and no claim below is
  settled at such a tick.
\<close>

definition process_tick ::
  "MarketDataProcessor \<Rightarrow> MLFeatures \<Rightarrow> MarketTick \<Rightarrow> MarketTick list option \<Rightarrow> nat \<Rightarrow> u64 \<Rightarrow> u64
     \<Rightarrow> (MLFeatures \<times> MarketDataProcessor) option"
where
  "process_tick p features0 tick history_buffer history_size t_start t_end = do {
     let features1 = features0
           \<lparr>timestamp_ns := MarketTick.timestamp_ns tick,
            spread_bps := MarketTick.spread_bps tick,
            liquidity_score := ln (real (unat (bid_size tick + ask_size tick + 1))),
            venue_preference := real (unat (venue_id tick)) / 10\<rparr>;
     features2 \<leftarrow>
       (if history_buffer \<noteq> None \<and> history_size > 1 then
          (if history_size \<le> length (the history_buffer) then
             (let recent_history = min history_size 10;
                  (price_sum, volume_sum) =
                     history_sums (the history_buffer) history_size
                       (history_size - recent_history) 0 0;
                  avg_price = price_sum / real recent_history;
                  avg_volume = volume_sum / real recent_history;
                  variance_sum =
                     history_variance (the history_buffer) history_size
                       (history_size - recent_history) avg_price 0;
                  features_a = features1
                    \<lparr>price_change := (last_price tick - avg_price) / avg_price,
                     volume_ratio := real (unat (volume tick)) / max avg_volume 1,
                     volatility_5min := sqrt (variance_sum / real recent_history)\<rparr>
              in if recent_history \<ge> 5 then
                   (let old_price = last_price (the history_buffer ! (history_size - 5))
                    in Some (features_a\<lparr>momentum_1min := (last_price tick - old_price) / old_price\<rparr>))
                 else Some features_a)
           else None)
        else
          Some (features1\<lparr>price_change := 0,
                          volume_ratio := 1,
                          volatility_5min := 0.02,
                          momentum_1min := 0\<rparr>));
     Some (features2,
           p\<lparr>stats := (stats p)
               \<lparr>ticks_processed := ticks_processed (stats p) + 1,
                processing_time_ns := processing_time_ns (stats p) + (t_end - t_start),
                feature_calculations := feature_calculations (stats p) + 7\<rparr>\<rparr>)
   }"

definition calculate_risk_metrics :: "MLFeatures \<Rightarrow> real \<Rightarrow> RiskMetrics" where
  "calculate_risk_metrics features position_size =
    (let pr = \<bar>position_size\<bar> * volatility_5min features * 1000;
         mi = \<bar>position_size\<bar> * spread_bps features * 0.1;
         ec = \<bar>position_size\<bar> * (spread_bps features * 0.5 + 0.5)
     in \<lparr>position_risk = pr,
         market_impact_estimate = mi,
         execution_cost_estimate = ec,
         risk_limit_exceeded =
           (pr > 10000 \<or> \<bar>price_change features\<bar> > 0.05 \<or> volatility_5min features > 0.10)\<rparr>)"

section \<open>The foreign-call boundary\<close>

text \<open>
  Each function takes the objects its pointers point to and returns the \<^verbatim>\<open>int\<close>
  result together with the contents of the pointed-to objects after the call.
\<close>

definition generate_tick_c ::
  "HighFrequencyTickGenerator option \<Rightarrow> MarketTick option \<Rightarrow> clock_reads
     \<Rightarrow> (int \<times> HighFrequencyTickGenerator option \<times> MarketTick option) option"
where
  "generate_tick_c gen output clk =
    (if gen = None \<or> output = None then Some (0, gen, output)
     else (case generate_tick (the gen) clk of
             None \<Rightarrow> None
           | Some (tick, g') \<Rightarrow> Some (1, Some g', Some tick)))"

text \<open>
  \<open>symbol_strings\<close> is the caller's array of C strings, each entry taken to be a valid
  string; reading \<open>symbol_count\<close> entries from a shorter array leaves the array.
\<close>

definition initialize_symbols_c ::
  "HighFrequencyTickGenerator option \<Rightarrow> string list option \<Rightarrow> nat
     \<Rightarrow> (int \<times> HighFrequencyTickGenerator option) option"
where
  "initialize_symbols_c gen symbol_strings symbol_count =
    (if gen = None \<or> symbol_strings = None then Some (0, gen)
     else if symbol_count \<le> length (the symbol_strings) then
       (case initialize_symbols (the gen) (take symbol_count (the symbol_strings)) DEFAULT_VENUES of
          None \<Rightarrow> None
        | Some g' \<Rightarrow> Some (1, Some g'))
     else None)"

definition process_tick_c ::
  "MarketDataProcessor option \<Rightarrow> MarketTick option \<Rightarrow> MLFeatures option \<Rightarrow> MLFeatures \<Rightarrow> u64 \<Rightarrow> u64
     \<Rightarrow> (int \<times> MarketDataProcessor option \<times> MLFeatures option) option"
where
  "process_tick_c proc input output features0 t_start t_end =
    (if proc = None \<or> input = None \<or> output = None then Some (0, proc, output)
     else (case process_tick (the proc) features0 (the input) None 0 t_start t_end of
             None \<Rightarrow> None
           | Some (features, p') \<Rightarrow> Some (1, Some p', Some features)))"

section \<open>The states the generator reaches\<close>

text \<open>
  \<open>initialize_symbols\<close> is the only writer of \<open>num_symbols\<close>, \<open>num_venues\<close>,
  \<open>tick_multiplier\<close> and \<open>avg_volume\<close>, and \<open>set_target_frequency\<close> the only writer of
  the target interval. \<open>gen_inv\<close> records what they establish: the counts stay within
  the capacity of the arrays, every configured symbol has a weight between 1 and 8 and
  an average volume between 10000 and 100000, and the interval is at most one second.
  Under it no index leaves the two arrays and no 32-bit sum of weights wraps. It holds
  after the constructor and after every \<open>initialize_symbols\<close>, and \<open>generate_tick\<close> keeps it
  (lemmas \<open>create_tick_generator_inv\<close>, \<open>initialize_symbols_inv\<close>, \<open>generate_tick_step\<close>).
\<close>

definition gen_inv :: "HighFrequencyTickGenerator \<Rightarrow> bool" where
  "gen_inv g \<longleftrightarrow>
     length (symbols g) = MAX_SYMBOLS \<and>
     length (venues g) = MAX_VENUES \<and>
     unat (num_symbols g) \<le> MAX_SYMBOLS \<and>
     unat (num_venues g) \<le> MAX_VENUES \<and>
     target_tick_interval_ns g \<le> 1000000000 \<and>
     (\<forall>i < unat (num_symbols g).
        1 \<le> tick_multiplier (symbols g ! i) \<and> tick_multiplier (symbols g ! i) \<le> 8 \<and>
        10000 \<le> avg_volume (symbols g ! i) \<and> avg_volume (symbols g ! i) \<le> 100000)"

text \<open>The weight of the \<open>j\<close>-th symbol as a natural number.\<close>

definition weight :: "HighFrequencyTickGenerator \<Rightarrow> nat \<Rightarrow> nat" where
  "weight g j = unat (tick_multiplier (symbols g ! j))"

section \<open>Concrete states\<close>

text \<open>
  A generator with the first three default symbols and the five default venues configured:
  prices and weights from the tables, volatility, average volume and trend within the
  ranges \<open>initialize_symbols\<close> draws from. The remaining slots of the two arrays hold
  unconfigured entries.
\<close>

definition unconfigured_symbol :: SymbolState where
  "unconfigured_symbol =
    \<lparr>current_price = 0, volatility = 0, avg_volume = 0, tick_multiplier = 0,
     last_update_ns = 0, price_trend = 0, symbol_name = []\<rparr>"

definition unconfigured_venue :: VenueInfo where
  "unconfigured_venue =
    \<lparr>name = [], maker_fee = 0, taker_fee = 0, rebate = 0,
     base_latency_us = 0, jitter_range_us = 0\<rparr>"

definition example_symbols :: "SymbolState list" where
  "example_symbols =
    [\<lparr>current_price = 227.21, volatility = 0.2, avg_volume = 50000, tick_multiplier = 5,
      last_update_ns = 0, price_trend = 0.01, symbol_name = ''AAPL''\<rparr>,
     \<lparr>current_price = 521.75, volatility = 0.3, avg_volume = 20000, tick_multiplier = 5,
      last_update_ns = 0, price_trend = - 0.01, symbol_name = ''MSFT''\<rparr>,
     \<lparr>current_price = 201.00, volatility = 0.4, avg_volume = 80000, tick_multiplier = 4,
      last_update_ns = 0, price_trend = 0, symbol_name = ''GOOGL''\<rparr>]"

definition example_generator :: HighFrequencyTickGenerator where
  "example_generator =
    \<lparr>symbols = example_symbols @ replicate 61 unconfigured_symbol,
     venues = DEFAULT_VENUES @ replicate 3 unconfigured_venue,
     rng_state = 88172645463325252,
     total_ticks_generated = 0,
     generation_time_ns = 0,
     num_symbols = 3,
     num_venues = 5,
     target_tick_interval_ns = 10000000\<rparr>"

definition example_clock :: clock_reads where
  "example_clock = \<lparr>start_time = 1000, now_ns = 1500, end_time = 2000\<rparr>"

text \<open>
  A generator with one configured symbol whose price has moved to just below 500.
\<close>

definition near_threshold_generator :: HighFrequencyTickGenerator where
  "near_threshold_generator =
    \<lparr>symbols =
       \<lparr>current_price = 499.5, volatility = 0.3, avg_volume = 20000, tick_multiplier = 5,
        last_update_ns = 0, price_trend = 0.01, symbol_name = ''MSFT''\<rparr>
       # replicate 63 unconfigured_symbol,
     venues = DEFAULT_VENUES @ replicate 3 unconfigured_venue,
     rng_state = 1700000000000000001,
     total_ticks_generated = 0,
     generation_time_ns = 0,
     num_symbols = 1,
     num_venues = 5,
     target_tick_interval_ns = 10000000\<rparr>"


text \<open>
  The clock readings of a call made in the last nanosecond that 64 bits can count.
\<close>

definition last_clock :: clock_reads where
  "last_clock =
    \<lparr>start_time = 18446744073709551000, now_ns = 18446744073709551615,
     end_time = 18446744073709551615\<rparr>"

text \<open>
  A processor, a tick, a tick whose displayed sizes add up to more than 32 bits hold, a
  history of three ticks, and the content of the storage that the local \<open>features\<close> of
  \<open>process_tick\<close> happens to occupy.
\<close>

definition example_processor :: MarketDataProcessor where
  "example_processor =
    \<lparr>stats = \<lparr>ticks_processed = 0, processing_time_ns = 0, feature_calculations = 0\<rparr>\<rparr>"

definition example_tick :: MarketTick where
  "example_tick =
    \<lparr>MarketTick.timestamp_ns = 1500, symbol_id = 0, bid_price = 227.18, ask_price = 227.24,
     bid_size = 500, ask_size = 300, last_price = 227.21, volume = 8000, venue_id = 2,
     MarketTick.spread_bps = 2.5\<rparr>"

definition large_size_tick :: MarketTick where
  "large_size_tick = example_tick\<lparr>bid_size := 4294967295, ask_size := 1\<rparr>"

definition short_history :: "MarketTick list" where
  "short_history =
    [example_tick\<lparr>last_price := 227.00\<rparr>,
     example_tick\<lparr>last_price := 227.10\<rparr>,
     example_tick\<lparr>last_price := 227.20\<rparr>]"

definition stale_features :: MLFeatures where
  "stale_features =
    \<lparr>price_change = 1, volume_ratio = 2, spread_bps = 3, volatility_5min = 4,
     momentum_1min = 7, liquidity_score = 5, venue_preference = 6, timestamp_ns = 8\<rparr>"

text \<open>
  The generator \<open>initialize_symbols_c\<close> leaves when it is called with a symbol count of 0.
\<close>

definition empty_generator :: HighFrequencyTickGenerator where
  "empty_generator = example_generator\<lparr>num_symbols := 0\<rparr>"

section \<open>Words and random draws\<close>

lemma fast_random_uint32_Some:
  "hi - lo + 1 \<noteq> 0 \<Longrightarrow>
   fast_random_uint32 s lo hi =
     Some (ucast ((ucast lo :: u64) + xorshift64 s mod (ucast (hi - lo + 1) :: u64)), xorshift64 s)"
  by (simp add: fast_random_uint32_def Let_def)

lemma unat_ucast_32_64: "unat (ucast (w :: u32) :: u64) = unat w"
proof -
  have "unat w < 2 ^ 32" using unsigned_less [of w, where ?'a = nat] by simp
  then have "unat w < 2 ^ 64" by simp
  then show ?thesis by (simp add: unsigned_ucast_eq take_bit_nat_eq_self)
qed

lemma unat_ucast_64_32: "unat (w :: u64) < 2 ^ 32 \<Longrightarrow> unat (ucast w :: u32) = unat w"
  by (simp add: unsigned_ucast_eq take_bit_nat_eq_self)

lemma unat_draw:
  fixes lo hi :: u32 and x :: u64
  assumes le: "lo \<le> hi" and fit: "unat hi - unat lo + 1 < 2 ^ 32"
  shows "unat (ucast ((ucast lo :: u64) + x mod (ucast (hi - lo + 1) :: u64)) :: u32)
         = unat lo + unat x mod (unat hi - unat lo + 1)"
proof -
  define k where "k = unat x mod (unat hi - unat lo + 1)"
  have le': "unat lo \<le> unat hi" using le by (simp add: word_le_nat_alt)
  have d: "unat (hi - lo) = unat hi - unat lo" using le by (simp add: unat_sub)
  have r: "unat (hi - lo + 1) = unat hi - unat lo + 1"
    using fit d by (simp add: unat_word_ariths)
  have r64: "unat (ucast (hi - lo + 1) :: u64) = unat hi - unat lo + 1"
    using r by (simp add: unat_ucast_32_64)
  have m: "unat (x mod (ucast (hi - lo + 1) :: u64)) = k"
    by (simp add: unat_mod r64 k_def)
  have "k < unat hi - unat lo + 1" unfolding k_def by (rule mod_less_divisor) simp
  moreover have "unat hi < 2 ^ 32" using unsigned_less [of hi, where ?'a = nat] by simp
  ultimately have b: "unat lo + k < 2 ^ 32" using le' by simp
  then have "unat (ucast lo :: u64) + unat (x mod (ucast (hi - lo + 1) :: u64)) < 2 ^ LENGTH(64)"
    unfolding m unat_ucast_32_64 by simp
  then have "unat ((ucast lo :: u64) + x mod (ucast (hi - lo + 1) :: u64))
           = unat (ucast lo :: u64) + unat (x mod (ucast (hi - lo + 1) :: u64))"
    by (rule unat_add_lem [THEN iffD1])
  then have s: "unat ((ucast lo :: u64) + x mod (ucast (hi - lo + 1) :: u64)) = unat lo + k"
    unfolding m unat_ucast_32_64 .
  have "unat (ucast ((ucast lo :: u64) + x mod (ucast (hi - lo + 1) :: u64)) :: u32) = unat lo + k"
    using b s by (simp add: unat_ucast_64_32)
  then show ?thesis by (simp add: k_def)
qed

lemma normalized_bounds:
  "0 \<le> real (unat ((r :: u64) AND 0xFFFFFF)) / 16777216 \<and>
   real (unat (r AND 0xFFFFFF)) / 16777216 < 1"
proof -
  have "r AND 0xFFFFFF \<le> 0xFFFFFF" by (rule word_and_le1)
  then have "unat (r AND 0xFFFFFF) \<le> 16777215" by (simp add: word_le_nat_alt)
  then have "real (unat (r AND 0xFFFFFF)) \<le> 16777215" by (simp del: of_nat_unat)
  then show ?thesis by (simp del: of_nat_unat)
qed

section \<open>The weight loops\<close>

declare sum_weights.simps [simp del] weight_scan.simps [simp del]

lemma prefix_sum_le:
  fixes W :: "nat \<Rightarrow> nat"
  shows "i \<le> n \<Longrightarrow> (\<Sum>j<i. W j) \<le> (\<Sum>j<n. W j)"
  by (rule sum_mono2) auto

lemma unat_add_fit:
  fixes a b :: u32
  assumes "unat a + unat b < 2 ^ 32"
  shows "unat (a + b) = unat a + unat b"
  using assms unat_add_lem [of a b] by simp

lemma sum_weights_unat:
  "i \<le> n \<Longrightarrow> unat acc = (\<Sum>j<i. unat (tick_multiplier (syms ! j))) \<Longrightarrow>
   (\<Sum>j<n. unat (tick_multiplier (syms ! j))) < 2 ^ 32 \<Longrightarrow>
   unat (sum_weights syms n i acc) = (\<Sum>j<n. unat (tick_multiplier (syms ! j)))"
proof (induction syms n i acc rule: sum_weights.induct)
  case (1 syms n i acc)
  show ?case
  proof (cases "i < n")
    case True
    have "(\<Sum>j<Suc i. unat (tick_multiplier (syms ! j))) \<le> (\<Sum>j<n. unat (tick_multiplier (syms ! j)))"
      using True by (intro prefix_sum_le) simp
    then have "unat acc + unat (tick_multiplier (syms ! i)) < 2 ^ 32"
      using "1.prems" by simp
    then have "unat (acc + tick_multiplier (syms ! i)) = (\<Sum>j<Suc i. unat (tick_multiplier (syms ! j)))"
      using "1.prems" by (simp add: unat_add_fit)
    with True "1.prems" "1.IH" show ?thesis
      by (simp add: sum_weights.simps [of syms n i acc])
  next
    case False
    then have "sum_weights syms n i acc = acc"
      by (subst sum_weights.simps) simp
    with False "1.prems" show ?thesis by simp
  qed
qed

lemma weight_scan_first:
  "i \<le> n \<Longrightarrow> unat cum = (\<Sum>j<i. unat (tick_multiplier (syms ! j))) \<Longrightarrow>
   (\<Sum>j<n. unat (tick_multiplier (syms ! j))) < 2 ^ 32 \<Longrightarrow>
   (\<Sum>j<i. unat (tick_multiplier (syms ! j))) \<le> unat r \<Longrightarrow>
   unat r < (\<Sum>j<n. unat (tick_multiplier (syms ! j))) \<Longrightarrow>
   i \<le> weight_scan syms n r i cum \<and> weight_scan syms n r i cum < n \<and>
   (\<Sum>j<weight_scan syms n r i cum. unat (tick_multiplier (syms ! j))) \<le> unat r \<and>
   unat r < (\<Sum>j<Suc (weight_scan syms n r i cum). unat (tick_multiplier (syms ! j)))"
proof (induction syms n r i cum rule: weight_scan.induct)
  case (1 syms n r i cum)
  show ?case
  proof (cases "i < n")
    case True
    have "(\<Sum>j<Suc i. unat (tick_multiplier (syms ! j))) \<le> (\<Sum>j<n. unat (tick_multiplier (syms ! j)))"
      using True by (intro prefix_sum_le) simp
    then have "unat cum + unat (tick_multiplier (syms ! i)) < 2 ^ 32"
      using "1.prems" by simp
    then have c: "unat (cum + tick_multiplier (syms ! i)) = (\<Sum>j<Suc i. unat (tick_multiplier (syms ! j)))"
      using "1.prems" by (simp add: unat_add_fit)
    show ?thesis
    proof (cases "r < cum + tick_multiplier (syms ! i)")
      case hit: True
      then have "unat r < (\<Sum>j<Suc i. unat (tick_multiplier (syms ! j)))"
        using c by (simp add: word_less_nat_alt)
      with True hit "1.prems" show ?thesis
        by (simp add: weight_scan.simps [of syms n r i cum])
    next
      case miss: False
      then have "(\<Sum>j<Suc i. unat (tick_multiplier (syms ! j))) \<le> unat r"
        using c by (simp add: word_less_nat_alt)
      with True miss c "1.prems" "1.IH" [OF True refl miss] show ?thesis
        by (simp add: weight_scan.simps [of syms n r i cum])
    qed
  next
    case False
    with "1.prems" have "i = n" by simp
    with "1.prems" show ?thesis by simp
  qed
qed

section \<open>One call of \<open>generate_tick\<close>, draw by draw\<close>

text \<open>
  Given the value of every draw, \<open>generate_tick\<close> returns the tick and the state built
  from them.
\<close>

lemma generate_tick_eval:
  assumes r: "fast_random_uint32 (rng_state g) 0
                (sum_weights (symbols g) (unat (num_symbols g)) 0 0 - 1) = Some (r, s1)"
    and sel: "weight_scan (symbols g) (unat (num_symbols g)) r 0 0 = sel"
    and symb: "symbols g ! sel = symbol"
    and dc: "fast_random_float s1 (- volatility symbol * 0.01) (volatility symbol * 0.01) = (dc, s2)"
    and ds: "fast_random_float s2 0.5 3.0 = (ds, s3)"
    and vlo: "float_to_uint32 (real (unat (avg_volume symbol)) * 0.1) = Some vlo"
    and vhi: "float_to_uint32 (real (unat (avg_volume symbol)) * 2.0) = Some vhi"
    and vol: "fast_random_uint32 s3 vlo vhi = Some (vol, s4)"
    and vi: "fast_random_uint32 s4 0 (ucast (num_venues g - 1)) = Some (vi, s5)"
    and bs: "fast_random_uint32 s5 100 10000 = Some (bs, s6)"
    and az: "fast_random_uint32 s6 100 10000 = Some (az, s7)"
    and np: "max (current_price symbol * (1 + (dc + price_trend symbol * 0.001))) 0.01 = new_price"
    and sp: "(if current_price symbol > 500 then ds * 2 else ds) = spread"
  shows "generate_tick g clk =
     Some (\<lparr>MarketTick.timestamp_ns = now_ns clk, symbol_id = of_nat sel,
             bid_price = new_price - (spread / 10000) * new_price * 0.5,
             ask_price = new_price + (spread / 10000) * new_price * 0.5,
             bid_size = bs, ask_size = az, last_price = new_price, volume = vol,
             venue_id = ucast vi, MarketTick.spread_bps = spread\<rparr>,
           g\<lparr>symbols := (symbols g)
                 [sel := symbol\<lparr>current_price := new_price, last_update_ns := now_ns clk\<rparr>],
             rng_state := s7,
             total_ticks_generated := total_ticks_generated g + 1,
             generation_time_ns := generation_time_ns g + (end_time clk - start_time clk)\<rparr>)"
  unfolding generate_tick_def
  apply (simp only: Let_def r Option.bind.simps prod.case sel symb dc ds np sp vlo vhi vol vi bs az)
  apply simp
  done

lemma unat_range:
  fixes lo hi :: u32
  assumes le: "lo \<le> hi" and fit: "unat hi - unat lo + 1 < 2 ^ 32"
  shows "unat (hi - lo + 1) = unat hi - unat lo + 1"
proof -
  have d: "unat (hi - lo) = unat hi - unat lo" using le by (simp add: unat_sub)
  show ?thesis using fit d by (simp add: unat_word_ariths)
qed

lemma fast_random_uint32_draw:
  assumes le: "lo \<le> hi" and fit: "unat hi - unat lo + 1 < 2 ^ 32"
  shows "\<exists>r. fast_random_uint32 s lo hi = Some (r, xorshift64 s) \<and>
             unat r = unat lo + unat (xorshift64 s) mod (unat hi - unat lo + 1)"
proof -
  have "unat (hi - lo + 1) \<noteq> 0" using unat_range [OF le fit] by simp
  then have "hi - lo + 1 \<noteq> 0" by (simp add: unat_eq_0)
  then show ?thesis
    using unat_draw [OF le fit] by (simp add: fast_random_uint32_Some)
qed

lemma fast_random_float_bounds:
  assumes "fast_random_float s lo hi = (v, s')" and "lo \<le> hi"
  shows "lo \<le> v \<and> v \<le> hi \<and> (lo < hi \<longrightarrow> v < hi) \<and> s' = xorshift64 s"
proof -
  define nz where "nz = real (unat (xorshift64 s AND 0xFFFFFF)) / 16777216"
  have nz: "0 \<le> nz" "nz < 1"
    using normalized_bounds [of "xorshift64 s"] by (simp_all add: nz_def)
  have v: "v = lo + nz * (hi - lo)" and s': "s' = xorshift64 s"
    using assms(1) by (auto simp: fast_random_float_def Let_def nz_def simp del: of_nat_unat)
  have lower: "0 \<le> nz * (hi - lo)" using nz assms(2) by simp
  have upper: "nz * (hi - lo) \<le> 1 * (hi - lo)"
    using nz assms(2) by (intro mult_right_mono) simp_all
  have strict: "v < hi" if "lo < hi"
  proof -
    have "nz * (hi - lo) < 1 * (hi - lo)"
      using nz that by (intro mult_strict_right_mono) simp_all
    then show ?thesis using v by simp
  qed
  from lower upper have "lo \<le> v" "v \<le> hi" using v by simp_all
  with strict s' show ?thesis by blast
qed

lemma float_to_uint32_nonneg:
  assumes "0 \<le> x" and "x < 4294967296"
  shows "float_to_uint32 x = Some (word_of_int \<lfloor>x\<rfloor>) \<and> unat (word_of_int \<lfloor>x\<rfloor> :: u32) = nat \<lfloor>x\<rfloor>"
proof -
  have f0: "0 \<le> \<lfloor>x\<rfloor>" using assms(1) by simp
  have f1: "\<lfloor>x\<rfloor> < 4294967296" using assms(2) by (simp add: floor_less_iff)
  have "uint (word_of_int \<lfloor>x\<rfloor> :: u32) = \<lfloor>x\<rfloor>"
    using f0 f1 by (simp add: uint_word_of_int)
  then have "unat (word_of_int \<lfloor>x\<rfloor> :: u32) = nat \<lfloor>x\<rfloor>"
    by (simp add: unat_eq_nat_uint)
  then show ?thesis using assms by (simp add: float_to_uint32_def)
qed

lemma weights_bounds:
  fixes W :: "nat \<Rightarrow> nat"
  assumes "\<forall>j<n. 1 \<le> W j \<and> W j \<le> 8"
  shows "n \<le> (\<Sum>j<n. W j) \<and> (\<Sum>j<n. W j) \<le> 8 * n"
  using assms by (induction n) (auto simp: less_Suc_eq)

lemma gen_inv_weights:
  assumes "gen_inv g" and "j < unat (num_symbols g)"
  shows "1 \<le> weight g j \<and> weight g j \<le> 8"
proof -
  have "1 \<le> tick_multiplier (symbols g ! j) \<and> tick_multiplier (symbols g ! j) \<le> 8"
    using assms by (simp add: gen_inv_def)
  then show ?thesis by (simp add: weight_def word_le_nat_alt)
qed

lemma gen_inv_total:
  assumes "gen_inv g"
  shows "unat (num_symbols g) \<le> (\<Sum>j<unat (num_symbols g). weight g j) \<and>
         (\<Sum>j<unat (num_symbols g). weight g j) \<le> 512"
proof -
  have "\<forall>j<unat (num_symbols g). 1 \<le> weight g j \<and> weight g j \<le> 8"
    using gen_inv_weights [OF assms] by blast
  from weights_bounds [OF this]
  have "unat (num_symbols g) \<le> (\<Sum>j<unat (num_symbols g). weight g j)"
    and "(\<Sum>j<unat (num_symbols g). weight g j) \<le> 8 * unat (num_symbols g)" by simp_all
  moreover have "unat (num_symbols g) \<le> 64" using assms by (simp add: gen_inv_def MAX_SYMBOLS_def)
  ultimately show ?thesis by simp
qed

lemma gen_inv_sum_weights:
  assumes "gen_inv g"
  shows "unat (sum_weights (symbols g) (unat (num_symbols g)) 0 0)
         = (\<Sum>j<unat (num_symbols g). weight g j)"
proof -
  have "(\<Sum>j<unat (num_symbols g). unat (tick_multiplier (symbols g ! j))) < 2 ^ 32"
    using gen_inv_total [OF assms] by (simp add: weight_def)
  then show ?thesis
    using sum_weights_unat [of 0 "unat (num_symbols g)" 0 "symbols g"] by (simp add: weight_def)
qed

lemma volume_range:
  fixes av :: u32
  assumes "10000 \<le> av" and "av \<le> 100000"
  shows "\<exists>vlo vhi. float_to_uint32 (real (unat av) * 0.1) = Some vlo \<and>
                   float_to_uint32 (real (unat av) * 2.0) = Some vhi \<and>
                   vlo \<le> vhi \<and> unat vhi - unat vlo + 1 < 2 ^ 32"
proof -
  define a where "a = real (unat av)"
  have a: "10000 \<le> a" "a \<le> 100000"
    using assms by (simp_all add: a_def word_le_nat_alt del: of_nat_unat)
  have lo: "float_to_uint32 (a * 0.1) = Some (word_of_int \<lfloor>a * 0.1\<rfloor>)"
       "unat (word_of_int \<lfloor>a * 0.1\<rfloor> :: u32) = nat \<lfloor>a * 0.1\<rfloor>"
    using float_to_uint32_nonneg [of "a * 0.1"] a by simp_all
  have hi: "float_to_uint32 (a * 2.0) = Some (word_of_int \<lfloor>a * 2.0\<rfloor>)"
       "unat (word_of_int \<lfloor>a * 2.0\<rfloor> :: u32) = nat \<lfloor>a * 2.0\<rfloor>"
    using float_to_uint32_nonneg [of "a * 2.0"] a by simp_all
  have "\<lfloor>a * 0.1\<rfloor> \<le> \<lfloor>a * 2.0\<rfloor>" using a by (intro floor_mono) simp
  then have le: "nat \<lfloor>a * 0.1\<rfloor> \<le> nat \<lfloor>a * 2.0\<rfloor>" by simp
  have up: "nat \<lfloor>a * 2.0\<rfloor> \<le> 200000" using a by (simp add: nat_le_iff floor_le_iff)
  have "(word_of_int \<lfloor>a * 0.1\<rfloor> :: u32) \<le> word_of_int \<lfloor>a * 2.0\<rfloor>"
    using le lo(2) hi(2) by (simp add: word_le_nat_alt)
  moreover have "unat (word_of_int \<lfloor>a * 2.0\<rfloor> :: u32) - unat (word_of_int \<lfloor>a * 0.1\<rfloor> :: u32) + 1 < 2 ^ 32"
    using up lo(2) hi(2) by simp
  ultimately show ?thesis using lo(1) hi(1) unfolding a_def by blast
qed

lemma venue_hi:
  fixes nv :: u64
  assumes "1 \<le> unat nv" and "unat nv \<le> 8"
  shows "unat (ucast (nv - 1) :: u32) = unat nv - 1"
proof -
  have "nv \<noteq> 0" using assms(1) by (auto simp: unat_eq_0)
  then have "unat (nv - 1) = unat nv - 1" by (rule unat_minus_one)
  moreover from this have "unat (nv - 1) < 2 ^ 32" using assms(2) by simp
  ultimately show ?thesis by (simp add: unat_ucast_64_32)
qed

text \<open>
  On a state satisfying \<open>gen_inv\<close> with a symbol and a venue configured, every draw of
  \<open>generate_tick\<close> is defined and the call returns.
\<close>

lemma generate_tick_cases:
  assumes inv: "gen_inv g" and ns: "1 \<le> unat (num_symbols g)" and nv: "1 \<le> unat (num_venues g)"
  obtains r idx symbol dc s2 ds s3 new_price spread vol vi bs az s7 where
    "fast_random_uint32 (rng_state g) 0
       (sum_weights (symbols g) (unat (num_symbols g)) 0 0 - 1) = Some (r, xorshift64 (rng_state g))"
    "unat r < (\<Sum>j<unat (num_symbols g). weight g j)"
    "idx = weight_scan (symbols g) (unat (num_symbols g)) r 0 0"
    "idx < unat (num_symbols g)"
    "(\<Sum>j<idx. weight g j) \<le> unat r"
    "unat r < (\<Sum>j<Suc idx. weight g j)"
    "symbol = symbols g ! idx"
    "fast_random_float (xorshift64 (rng_state g))
       (- volatility symbol * 0.01) (volatility symbol * 0.01) = (dc, s2)"
    "fast_random_float s2 0.5 3.0 = (ds, s3)"
    "new_price = max (current_price symbol * (1 + (dc + price_trend symbol * 0.001))) 0.01"
    "spread = (if current_price symbol > 500 then ds * 2 else ds)"
    "unat (vi :: u32) < unat (num_venues g)"
    "generate_tick g clk =
       Some (\<lparr>MarketTick.timestamp_ns = now_ns clk, symbol_id = of_nat idx,
               bid_price = new_price - (spread / 10000) * new_price * 0.5,
               ask_price = new_price + (spread / 10000) * new_price * 0.5,
               bid_size = bs, ask_size = az, last_price = new_price, volume = vol,
               venue_id = ucast vi, MarketTick.spread_bps = spread\<rparr>,
             g\<lparr>symbols := (symbols g)
                   [idx := symbol\<lparr>current_price := new_price, last_update_ns := now_ns clk\<rparr>],
               rng_state := s7,
               total_ticks_generated := total_ticks_generated g + 1,
               generation_time_ns := generation_time_ns g + (end_time clk - start_time clk)\<rparr>)"
    "s7 = (xorshift64 ^^ 7) (rng_state g)"
proof -
  define n where "n = unat (num_symbols g)"
  define S where "S = (\<Sum>j<n. weight g j)"
  define tw where "tw = sum_weights (symbols g) n 0 0"
  have S: "n \<le> S" "S \<le> 512" using gen_inv_total [OF inv] by (simp_all add: S_def n_def)
  have S1: "1 \<le> S" using S(1) ns by (simp add: n_def)
  have tw: "unat tw = S" using gen_inv_sum_weights [OF inv] by (simp add: tw_def S_def n_def)
  have "tw \<noteq> 0" using tw S1 by (auto simp: unat_eq_0)
  then have tw1: "unat (tw - 1) = S - 1" using tw by (simp add: unat_minus_one)
  have fit0: "unat (tw - 1) - unat (0 :: u32) + 1 < 2 ^ 32" using tw1 S S1 by simp
  obtain r where r: "fast_random_uint32 (rng_state g) 0 (tw - 1) = Some (r, xorshift64 (rng_state g))"
    and ur: "unat r = unat (0 :: u32) + unat (xorshift64 (rng_state g)) mod (unat (tw - 1) - unat (0 :: u32) + 1)"
    using fast_random_uint32_draw [of 0 "tw - 1" "rng_state g", OF _ fit0] by auto
  have rS: "unat r < S" using ur tw1 S1 by simp
  define idx where "idx = weight_scan (symbols g) n r 0 0"
  have scan: "idx < n" "(\<Sum>j<idx. weight g j) \<le> unat r" "unat r < (\<Sum>j<Suc idx. weight g j)"
    using weight_scan_first [of 0 n 0 "symbols g" r] rS S
    by (simp_all add: idx_def S_def weight_def)
  define symbol where "symbol = symbols g ! idx"
  have av: "10000 \<le> avg_volume symbol" "avg_volume symbol \<le> 100000"
    using inv scan(1) by (simp_all add: gen_inv_def symbol_def n_def)
  obtain dc s2 where dc: "fast_random_float (xorshift64 (rng_state g))
       (- volatility symbol * 0.01) (volatility symbol * 0.01) = (dc, s2)"
    by (cases "fast_random_float (xorshift64 (rng_state g))
       (- volatility symbol * 0.01) (volatility symbol * 0.01)")
  obtain ds s3 where ds: "fast_random_float s2 0.5 3.0 = (ds, s3)"
    by (cases "fast_random_float s2 0.5 3.0")
  obtain vlo vhi where vlo: "float_to_uint32 (real (unat (avg_volume symbol)) * 0.1) = Some vlo"
    and vhi: "float_to_uint32 (real (unat (avg_volume symbol)) * 2.0) = Some vhi"
    and vle: "vlo \<le> vhi" and vfit: "unat vhi - unat vlo + 1 < 2 ^ 32"
    using volume_range [OF av] by blast
  obtain vol where vol: "fast_random_uint32 s3 vlo vhi = Some (vol, xorshift64 s3)"
    using fast_random_uint32_draw [OF vle vfit] by blast
  have nv8: "unat (num_venues g) \<le> 8" using inv by (simp add: gen_inv_def MAX_VENUES_def)
  have vh: "unat (ucast (num_venues g - 1) :: u32) = unat (num_venues g) - 1"
    using venue_hi [OF nv nv8] .
  have fitv: "unat (ucast (num_venues g - 1) :: u32) - unat (0 :: u32) + 1 < 2 ^ 32"
    using vh nv8 by simp
  obtain vi where vi: "fast_random_uint32 (xorshift64 s3) 0 (ucast (num_venues g - 1))
        = Some (vi, xorshift64 (xorshift64 s3))"
    and uvi: "unat vi = unat (0 :: u32) + unat (xorshift64 (xorshift64 s3))
        mod (unat (ucast (num_venues g - 1) :: u32) - unat (0 :: u32) + 1)"
    using fast_random_uint32_draw [of 0 "ucast (num_venues g - 1)" "xorshift64 s3", OF _ fitv] by auto
  have vin: "unat vi < unat (num_venues g)" using uvi vh nv by simp
  have le100: "(100 :: u32) \<le> 10000" by simp
  have fit100: "unat (10000 :: u32) - unat (100 :: u32) + 1 < 2 ^ 32" by simp
  obtain bs where bs: "fast_random_uint32 (xorshift64 (xorshift64 s3)) 100 10000
        = Some (bs, xorshift64 (xorshift64 (xorshift64 s3)))"
    using fast_random_uint32_draw [OF le100 fit100] by blast
  obtain az where az: "fast_random_uint32 (xorshift64 (xorshift64 (xorshift64 s3))) 100 10000
        = Some (az, xorshift64 (xorshift64 (xorshift64 (xorshift64 s3))))"
    using fast_random_uint32_draw [OF le100 fit100] by blast
  define new_price where
    "new_price = max (current_price symbol * (1 + (dc + price_trend symbol * 0.001))) 0.01"
  define spread where "spread = (if current_price symbol > 500 then ds * 2 else ds)"
  have ev: "generate_tick g clk =
       Some (\<lparr>MarketTick.timestamp_ns = now_ns clk, symbol_id = of_nat idx,
               bid_price = new_price - (spread / 10000) * new_price * 0.5,
               ask_price = new_price + (spread / 10000) * new_price * 0.5,
               bid_size = bs, ask_size = az, last_price = new_price, volume = vol,
               venue_id = ucast vi, MarketTick.spread_bps = spread\<rparr>,
             g\<lparr>symbols := (symbols g)
                   [idx := symbol\<lparr>current_price := new_price, last_update_ns := now_ns clk\<rparr>],
               rng_state := xorshift64 (xorshift64 (xorshift64 (xorshift64 s3))),
               total_ticks_generated := total_ticks_generated g + 1,
               generation_time_ns := generation_time_ns g + (end_time clk - start_time clk)\<rparr>)"
    by (rule generate_tick_eval [OF r [unfolded tw_def n_def] idx_def [symmetric, unfolded n_def]
          symbol_def [symmetric] dc ds vlo vhi vol vi bs az new_price_def [symmetric]
          spread_def [symmetric]])
  have s2: "s2 = xorshift64 (xorshift64 (rng_state g))"
    using dc by (simp add: fast_random_float_def Let_def)
  have s3: "s3 = xorshift64 s2"
    using ds by (simp add: fast_random_float_def Let_def)
  have s7: "xorshift64 (xorshift64 (xorshift64 (xorshift64 s3))) = (xorshift64 ^^ 7) (rng_state g)"
    by (simp add: s2 s3 eval_nat_numeral)
  show thesis
    by (rule that [OF r [unfolded tw_def n_def] rS [unfolded S_def n_def] idx_def [unfolded n_def]
          scan(1) [unfolded n_def] scan(2) scan(3) symbol_def dc ds new_price_def spread_def vin ev
          s7])
qed

section \<open>\<open>gen_inv\<close> is what initialisation establishes\<close>

declare init_symbol_loop.simps [simp del] init_venue_loop.simps [simp del]

lemma tick_multipliers_range:
  "i < length TICK_MULTIPLIERS \<Longrightarrow> 1 \<le> TICK_MULTIPLIERS ! i \<and> TICK_MULTIPLIERS ! i \<le> 8"
proof -
  have "\<forall>w \<in> set TICK_MULTIPLIERS. 1 \<le> w \<and> w \<le> 8"
    by (simp add: TICK_MULTIPLIERS_def)
  then show "i < length TICK_MULTIPLIERS \<Longrightarrow> 1 \<le> TICK_MULTIPLIERS ! i \<and> TICK_MULTIPLIERS ! i \<le> 8"
    using nth_mem by blast
qed

lemma avg_volume_draw:
  "\<exists>av. fast_random_uint32 s 10000 100000 = Some (av, xorshift64 s) \<and>
         10000 \<le> av \<and> av \<le> 100000"
proof -
  have le: "(10000 :: u32) \<le> 100000" by simp
  have fit: "unat (100000 :: u32) - unat (10000 :: u32) + 1 < 2 ^ 32" by simp
  obtain av where av: "fast_random_uint32 s 10000 100000 = Some (av, xorshift64 s)"
    and u: "unat av = unat (10000 :: u32) + unat (xorshift64 s)
              mod (unat (100000 :: u32) - unat (10000 :: u32) + 1)"
    using fast_random_uint32_draw [OF le fit] by blast
  have "unat (xorshift64 s) mod 90001 < 90001" by simp
  then have "10000 \<le> unat av \<and> unat av \<le> 100000" using u by simp
  then have "10000 \<le> av \<and> av \<le> 100000" by (simp add: word_le_nat_alt)
  with av show ?thesis by blast
qed

lemma init_symbol_loop_spec:
  assumes "n \<le> length syms" and "i \<le> n"
  shows "\<exists>syms' s'. init_symbol_loop symbol_names n i syms s = Some (syms', s') \<and>
           length syms' = length syms \<and>
           (\<forall>k<i. syms' ! k = syms ! k) \<and>
           (\<forall>k. i \<le> k \<and> k < n \<longrightarrow>
              1 \<le> tick_multiplier (syms' ! k) \<and> tick_multiplier (syms' ! k) \<le> 8 \<and>
              10000 \<le> avg_volume (syms' ! k) \<and> avg_volume (syms' ! k) \<le> 100000 \<and>
              symbol_name (syms' ! k) = symbol_names ! k \<and>
              current_price (syms' ! k) = (if k < length BASE_PRICES then BASE_PRICES ! k else 100))"
  using assms
proof (induction d \<equiv> "n - i" arbitrary: syms i s)
  case 0
  then have "i = n" by simp
  then have "init_symbol_loop symbol_names n i syms s = Some (syms, s)"
    by (subst init_symbol_loop.simps) simp
  with \<open>i = n\<close> show ?case by auto
next
  case (Suc d)
  from Suc.hyps(2) have lt: "i < n" and d: "d = n - Suc i" by simp_all
  have il: "i < length syms" using lt Suc.prems(1) by simp
  obtain vol s1 where vol: "fast_random_float s 0.15 0.45 = (vol, s1)"
    by (cases "fast_random_float s 0.15 0.45")
  obtain av where av: "fast_random_uint32 s1 10000 100000 = Some (av, xorshift64 s1)"
    and avr: "10000 \<le> av" "av \<le> 100000"
    using avg_volume_draw [of s1] by blast
  obtain trend s3 where trend: "fast_random_float (xorshift64 s1) (- 0.02) 0.02 = (trend, s3)"
    by (cases "fast_random_float (xorshift64 s1) (- 0.02) 0.02")
  define entry where "entry =
     \<lparr>current_price = (if i < length BASE_PRICES then BASE_PRICES ! i else 100),
      volatility = vol, avg_volume = av,
      tick_multiplier = (if i < length TICK_MULTIPLIERS then TICK_MULTIPLIERS ! i else 3),
      last_update_ns = 0, price_trend = trend, symbol_name = symbol_names ! i\<rparr>"
  have unfold: "init_symbol_loop symbol_names n i syms s
                = init_symbol_loop symbol_names n (Suc i) (syms[i := entry]) s3"
    using lt vol av trend by (subst init_symbol_loop.simps) (simp add: Let_def entry_def)
  have tm: "1 \<le> tick_multiplier entry \<and> tick_multiplier entry \<le> 8"
    using tick_multipliers_range [of i] by (simp add: entry_def)
  from Suc.hyps(1) [of "Suc i" "syms[i := entry]" s3] d lt Suc.prems
  obtain syms' s' where res: "init_symbol_loop symbol_names n (Suc i) (syms[i := entry]) s3
                               = Some (syms', s')"
    and len: "length syms' = length (syms[i := entry])"
    and pre: "\<forall>k<Suc i. syms' ! k = syms[i := entry] ! k"
    and post: "\<forall>k. Suc i \<le> k \<and> k < n \<longrightarrow>
              1 \<le> tick_multiplier (syms' ! k) \<and> tick_multiplier (syms' ! k) \<le> 8 \<and>
              10000 \<le> avg_volume (syms' ! k) \<and> avg_volume (syms' ! k) \<le> 100000 \<and>
              symbol_name (syms' ! k) = symbol_names ! k \<and>
              current_price (syms' ! k) = (if k < length BASE_PRICES then BASE_PRICES ! k else 100)"
    by auto
  have here: "syms' ! i = entry" using pre il by simp
  have before: "syms' ! k = syms ! k" if "k < i" for k using pre that by simp
  have all: "1 \<le> tick_multiplier (syms' ! k) \<and> tick_multiplier (syms' ! k) \<le> 8 \<and>
              10000 \<le> avg_volume (syms' ! k) \<and> avg_volume (syms' ! k) \<le> 100000 \<and>
              symbol_name (syms' ! k) = symbol_names ! k \<and>
              current_price (syms' ! k) = (if k < length BASE_PRICES then BASE_PRICES ! k else 100)"
    if "i \<le> k" "k < n" for k
  proof (cases "k = i")
    case True
    then show ?thesis using here tm avr by (simp add: entry_def)
  next
    case False
    then have "Suc i \<le> k" using that by simp
    then show ?thesis using post that by blast
  qed
  have "length syms' = length syms" using len by simp
  with res unfold before all show ?case by auto
qed

lemma init_venue_loop_length: "length (init_venue_loop venue_configs n i vs) = length vs"
proof (induction venue_configs n i vs rule: init_venue_loop.induct)
  case (1 venue_configs n i vs)
  then show ?case by (subst init_venue_loop.simps) simp
qed

lemma set_target_frequency_bound:
  "target_tick_interval_ns (set_target_frequency g ticks_per_second) \<le> 1000000000"
proof -
  have "unat ((1000000000 :: u64) div ucast ticks_per_second) \<le> unat (1000000000 :: u64)"
    unfolding unat_div by (rule div_le_dividend)
  then have "(1000000000 :: u64) div ucast ticks_per_second \<le> 1000000000"
    by (simp only: word_le_nat_alt)
  then show ?thesis by (simp add: set_target_frequency_def)
qed

lemma set_target_frequency_inv:
  "gen_inv g \<Longrightarrow> gen_inv (set_target_frequency g ticks_per_second)"
  using set_target_frequency_bound [of g ticks_per_second]
  by (simp add: gen_inv_def) (simp add: set_target_frequency_def)

lemma reset_performance_counters_inv:
  "gen_inv g \<Longrightarrow> gen_inv (reset_performance_counters g)"
  by (simp add: gen_inv_def reset_performance_counters_def)

lemma initialize_symbols_inv:
  assumes "length (symbols g) = MAX_SYMBOLS" and "length (venues g) = MAX_VENUES"
    and "target_tick_interval_ns g \<le> 1000000000"
  shows "\<exists>g'. initialize_symbols g symbol_names venue_configs = Some g' \<and> gen_inv g' \<and>
              unat (num_symbols g') = min (length symbol_names) MAX_SYMBOLS \<and>
              unat (num_venues g') = min (length venue_configs) MAX_VENUES \<and>
              target_tick_interval_ns g' = target_tick_interval_ns g \<and>
              total_ticks_generated g' = total_ticks_generated g \<and>
              generation_time_ns g' = generation_time_ns g"
proof -
  define ns where "ns = min (length symbol_names) MAX_SYMBOLS"
  define nv where "nv = min (length venue_configs) MAX_VENUES"
  have ns64: "ns \<le> 64" and nv8: "nv \<le> 8" by (simp_all add: ns_def nv_def MAX_SYMBOLS_def MAX_VENUES_def)
  have uns: "unat (of_nat ns :: u64) = ns" using ns64 by (simp add: unat_of_nat)
  have unv: "unat (of_nat nv :: u64) = nv" using nv8 by (simp add: unat_of_nat)
  have "ns \<le> length (symbols g)" using ns64 assms(1) by (simp add: MAX_SYMBOLS_def)
  from init_symbol_loop_spec [OF this, of 0 symbol_names "rng_state g"]
  obtain syms s where loop: "init_symbol_loop symbol_names ns 0 (symbols g) (rng_state g) = Some (syms, s)"
    and len: "length syms = length (symbols g)"
    and ok: "\<forall>k. k < ns \<longrightarrow>
              1 \<le> tick_multiplier (syms ! k) \<and> tick_multiplier (syms ! k) \<le> 8 \<and>
              10000 \<le> avg_volume (syms ! k) \<and> avg_volume (syms ! k) \<le> 100000"
    by auto
  have "initialize_symbols g symbol_names venue_configs =
        Some (g\<lparr>symbols := syms, venues := init_venue_loop venue_configs nv 0 (venues g),
                rng_state := s, num_symbols := of_nat ns, num_venues := of_nat nv\<rparr>)"
    by (simp add: initialize_symbols_def Let_def ns_def [symmetric] nv_def [symmetric] loop)
  moreover have "gen_inv (g\<lparr>symbols := syms, venues := init_venue_loop venue_configs nv 0 (venues g),
                rng_state := s, num_symbols := of_nat ns, num_venues := of_nat nv\<rparr>)"
    using assms len ok ns64 nv8 uns unv
    by (simp add: gen_inv_def init_venue_loop_length MAX_SYMBOLS_def MAX_VENUES_def)
  ultimately show ?thesis using uns unv by (simp add: ns_def nv_def)
qed

lemma create_tick_generator_inv:
  assumes "length raw_symbols = MAX_SYMBOLS" and "length raw_venues = MAX_VENUES"
  shows "\<exists>g. create_tick_generator raw_symbols raw_venues now ticks_per_second = Some g \<and>
             gen_inv g \<and> unat (num_symbols g) = 27 \<and> unat (num_venues g) = 5"
proof -
  define g0 where "g0 = set_target_frequency
         \<lparr>symbols = raw_symbols, venues = raw_venues, rng_state = now,
          total_ticks_generated = 0, generation_time_ns = 0,
          num_symbols = 0, num_venues = 0, target_tick_interval_ns = 0\<rparr>
         ticks_per_second"
  have "length (symbols g0) = MAX_SYMBOLS" "length (venues g0) = MAX_VENUES"
    using assms by (simp_all add: g0_def set_target_frequency_def)
  moreover have "target_tick_interval_ns g0 \<le> 1000000000"
    unfolding g0_def by (rule set_target_frequency_bound)
  ultimately obtain g where "initialize_symbols g0 DEFAULT_SYMBOLS DEFAULT_VENUES = Some g"
    "gen_inv g" "unat (num_symbols g) = min (length DEFAULT_SYMBOLS) MAX_SYMBOLS"
    "unat (num_venues g) = min (length DEFAULT_VENUES) MAX_VENUES"
    using initialize_symbols_inv [of g0 DEFAULT_SYMBOLS DEFAULT_VENUES] by blast
  then show ?thesis
    by (simp add: create_tick_generator_def g0_def [symmetric] DEFAULT_SYMBOLS_def
        DEFAULT_VENUES_def MAX_SYMBOLS_def MAX_VENUES_def)
qed

section \<open>Generated ticks\<close>

lemma unat_symbol_id:
  assumes "gen_inv g" and "idx < unat (num_symbols g)"
  shows "unat (of_nat idx :: u32) = idx" and "idx < length (symbols g)"
proof -
  have "idx < 64" using assms by (simp add: gen_inv_def MAX_SYMBOLS_def)
  then show "unat (of_nat idx :: u32) = idx" by (simp add: unat_of_nat)
  show "idx < length (symbols g)" using assms by (simp add: gen_inv_def)
qed



section \<open>The quotes in the range of binary32\<close>





lemma all_less_3: "(\<forall>i<(3::nat). P i) \<longleftrightarrow> P 0 \<and> P 1 \<and> P 2"
  by (auto simp: less_Suc_eq eval_nat_numeral)

lemma example_generator_inv:
  "gen_inv example_generator \<and> 1 \<le> unat (num_symbols example_generator) \<and>
   1 \<le> unat (num_venues example_generator)"
proof -
  have n: "unat (num_symbols example_generator) = 3" "unat (num_venues example_generator) = 5"
    by (simp_all add: example_generator_def)
  have len: "length (symbols example_generator) = 64" "length (venues example_generator) = 8"
    by (simp_all add: example_generator_def example_symbols_def DEFAULT_VENUES_def)
  have iv: "target_tick_interval_ns example_generator \<le> 1000000000"
    by (simp add: example_generator_def)
  have "\<forall>i<3. 1 \<le> tick_multiplier (symbols example_generator ! i) \<and>
               tick_multiplier (symbols example_generator ! i) \<le> 8 \<and>
               10000 \<le> avg_volume (symbols example_generator ! i) \<and>
               avg_volume (symbols example_generator ! i) \<le> 100000"
    unfolding all_less_3 by (simp add: example_generator_def example_symbols_def)
  then show ?thesis
    unfolding gen_inv_def n len MAX_SYMBOLS_def MAX_VENUES_def using iv by simp
qed







section \<open>Symbol selection\<close>

text \<open>
  Claim C3. In a state satisfying \<open>gen_inv\<close> with a symbol and a venue configured, the
  32-bit \<open>total_weight\<close> is the sum of the configured symbols' \<open>tick_multiplier\<close>s, the
  integer \<open>r\<close> that \<open>generate_tick\<close> draws lies in \<open>[0, total_weight - 1]\<close>, and the tick's
  symbol is the first one, in registration order, whose cumulative weight exceeds \<open>r\<close>:
  its own cumulative weight exceeds \<open>r\<close>, and that of every symbol before it does not.
\<close>

theorem generate_tick_selects_first_exceeding:
  assumes "gen_inv g" and "1 \<le> unat (num_symbols g)" and "1 \<le> unat (num_venues g)"
  shows "\<exists>r s1 t g'.
           fast_random_uint32 (rng_state g) 0
             (sum_weights (symbols g) (unat (num_symbols g)) 0 0 - 1) = Some (r, s1) \<and>
           unat (sum_weights (symbols g) (unat (num_symbols g)) 0 0)
             = (\<Sum>j<unat (num_symbols g). weight g j) \<and>
           unat r < (\<Sum>j<unat (num_symbols g). weight g j) \<and>
           generate_tick g clk = Some (t, g') \<and>
           unat (symbol_id t) < unat (num_symbols g) \<and>
           unat r < (\<Sum>j\<le>unat (symbol_id t). weight g j) \<and>
           (\<forall>k<unat (symbol_id t). (\<Sum>j\<le>k. weight g j) \<le> unat r)"
proof -
  from assms obtain r idx symbol dc s2 ds s3 new_price spread vol and vi :: u32 and bs az s7 where
    r: "fast_random_uint32 (rng_state g) 0
         (sum_weights (symbols g) (unat (num_symbols g)) 0 0 - 1) = Some (r, xorshift64 (rng_state g))"
    and rS: "unat r < (\<Sum>j<unat (num_symbols g). weight g j)"
    and idx: "idx < unat (num_symbols g)"
    and below: "(\<Sum>j<idx. weight g j) \<le> unat r"
    and above: "unat r < (\<Sum>j<Suc idx. weight g j)"
    and ev: "generate_tick g clk =
       Some (\<lparr>MarketTick.timestamp_ns = now_ns clk, symbol_id = of_nat idx,
               bid_price = new_price - (spread / 10000) * new_price * 0.5,
               ask_price = new_price + (spread / 10000) * new_price * 0.5,
               bid_size = bs, ask_size = az, last_price = new_price, volume = vol,
               venue_id = ucast vi, MarketTick.spread_bps = spread\<rparr>,
             g\<lparr>symbols := (symbols g)
                   [idx := symbol\<lparr>current_price := new_price, last_update_ns := now_ns clk\<rparr>],
               rng_state := s7,
               total_ticks_generated := total_ticks_generated g + 1,
               generation_time_ns := generation_time_ns g + (end_time clk - start_time clk)\<rparr>)"
    by (rule generate_tick_cases [where clk = clk])
  have id: "unat (of_nat idx :: u32) = idx" by (rule unat_symbol_id(1) [OF assms(1) idx])
  have before: "(\<Sum>j\<le>k. weight g j) \<le> unat r" if "k < idx" for k
  proof -
    have "(\<Sum>j<Suc k. weight g j) \<le> (\<Sum>j<idx. weight g j)"
      using that by (intro prefix_sum_le) simp
    then show ?thesis using below by (simp add: lessThan_Suc_atMost)
  qed
  have "unat r < (\<Sum>j\<le>idx. weight g j)" using above by (simp add: lessThan_Suc_atMost)
  with r rS idx before ev id gen_inv_sum_weights [OF assms(1)] show ?thesis by simp
qed

theorem generate_tick_selects_first_exceeding_witness:
  "gen_inv example_generator \<and> 1 \<le> unat (num_symbols example_generator) \<and>
   1 \<le> unat (num_venues example_generator) \<and>
   (\<exists>r s1 t g'.
      fast_random_uint32 (rng_state example_generator) 0
        (sum_weights (symbols example_generator) (unat (num_symbols example_generator)) 0 0 - 1)
        = Some (r, s1) \<and>
      unat (sum_weights (symbols example_generator) (unat (num_symbols example_generator)) 0 0)
        = (\<Sum>j<unat (num_symbols example_generator). weight example_generator j) \<and>
      unat r < (\<Sum>j<unat (num_symbols example_generator). weight example_generator j) \<and>
      generate_tick example_generator example_clock = Some (t, g') \<and>
      unat (symbol_id t) < unat (num_symbols example_generator) \<and>
      unat r < (\<Sum>j\<le>unat (symbol_id t). weight example_generator j) \<and>
      (\<forall>k<unat (symbol_id t). (\<Sum>j\<le>k. weight example_generator j) \<le> unat r))"
  using example_generator_inv
    generate_tick_selects_first_exceeding [of example_generator example_clock]
  by blast

text \<open>
  The scan picks the first symbol whose cumulative weight exceeds \<open>r\<close> for every \<open>r\<close>
  below the total weight, drawn or not.
\<close>

lemma weight_scan_first_exceeding:
  assumes "gen_inv g" and "unat r < (\<Sum>j<unat (num_symbols g). weight g j)"
  shows "weight_scan (symbols g) (unat (num_symbols g)) r 0 0 < unat (num_symbols g) \<and>
         unat r < (\<Sum>j\<le>weight_scan (symbols g) (unat (num_symbols g)) r 0 0. weight g j) \<and>
         (\<forall>k<weight_scan (symbols g) (unat (num_symbols g)) r 0 0.
            (\<Sum>j\<le>k. weight g j) \<le> unat r)"
proof -
  define idx where "idx = weight_scan (symbols g) (unat (num_symbols g)) r 0 0"
  have "(\<Sum>j<unat (num_symbols g). weight g j) < 2 ^ 32"
    using gen_inv_total [OF assms(1)] by simp
  then have scan: "idx < unat (num_symbols g)" "(\<Sum>j<idx. weight g j) \<le> unat r"
      "unat r < (\<Sum>j<Suc idx. weight g j)"
    using weight_scan_first [of 0 "unat (num_symbols g)" 0 "symbols g" r] assms(2)
    by (simp_all add: idx_def weight_def)
  have "(\<Sum>j\<le>k. weight g j) \<le> unat r" if "k < idx" for k
  proof -
    have "(\<Sum>j<Suc k. weight g j) \<le> (\<Sum>j<idx. weight g j)"
      using that by (intro prefix_sum_le) simp
    then show ?thesis using scan(2) by (simp add: lessThan_Suc_atMost)
  qed
  then show ?thesis
    using scan unfolding idx_def [symmetric] by (simp add: lessThan_Suc_atMost)
qed

section \<open>Price and spread\<close>

text \<open>
  Claim C6. In a state satisfying \<open>gen_inv\<close> with a symbol and a venue configured,
  whatever price change is drawn, the price \<open>generate_tick\<close> reports as
  \<open>last_price\<close> and commits as the selected symbol's \<open>current_price\<close> is the changed price
  floored at 0.01, hence positive. The change is the draw plus a thousandth of the
  symbol's trend; nothing is assumed of the price before the call.
\<close>

theorem generate_tick_price_floor:
  assumes "gen_inv g" and "1 \<le> unat (num_symbols g)" and "1 \<le> unat (num_venues g)"
  shows "\<exists>t g' s.
           generate_tick g clk = Some (t, g') \<and>
           last_price t =
             max (current_price (symbols g ! unat (symbol_id t))
                  * (1 + (fst (fast_random_float s
                                 (- volatility (symbols g ! unat (symbol_id t)) * 0.01)
                                 (volatility (symbols g ! unat (symbol_id t)) * 0.01))
                          + price_trend (symbols g ! unat (symbol_id t)) * 0.001)))
               0.01 \<and>
           0.01 \<le> last_price t \<and> 0 < last_price t \<and>
           current_price (symbols g' ! unat (symbol_id t)) = last_price t"
proof -
  from assms obtain r idx symbol dc s2 ds s3 new_price spread vol and vi :: u32 and bs az s7 where
    idx: "idx < unat (num_symbols g)"
    and symbol: "symbol = symbols g ! idx"
    and dc: "fast_random_float (xorshift64 (rng_state g))
               (- volatility symbol * 0.01) (volatility symbol * 0.01) = (dc, s2)"
    and np: "new_price = max (current_price symbol * (1 + (dc + price_trend symbol * 0.001))) 0.01"
    and ev: "generate_tick g clk =
       Some (\<lparr>MarketTick.timestamp_ns = now_ns clk, symbol_id = of_nat idx,
               bid_price = new_price - (spread / 10000) * new_price * 0.5,
               ask_price = new_price + (spread / 10000) * new_price * 0.5,
               bid_size = bs, ask_size = az, last_price = new_price, volume = vol,
               venue_id = ucast vi, MarketTick.spread_bps = spread\<rparr>,
             g\<lparr>symbols := (symbols g)
                   [idx := symbol\<lparr>current_price := new_price, last_update_ns := now_ns clk\<rparr>],
               rng_state := s7,
               total_ticks_generated := total_ticks_generated g + 1,
               generation_time_ns := generation_time_ns g + (end_time clk - start_time clk)\<rparr>)"
    by (rule generate_tick_cases [where clk = clk])
  note id = unat_symbol_id [OF assms(1) idx]
  have floor: "0.01 \<le> new_price" "0 < new_price" by (simp_all add: np)
  have "dc = fst (fast_random_float (xorshift64 (rng_state g))
                    (- volatility (symbols g ! idx) * 0.01) (volatility (symbols g ! idx) * 0.01))"
    using dc symbol by simp
  then have "new_price =
      max (current_price (symbols g ! idx)
           * (1 + (fst (fast_random_float (xorshift64 (rng_state g))
                          (- volatility (symbols g ! idx) * 0.01)
                          (volatility (symbols g ! idx) * 0.01))
                   + price_trend (symbols g ! idx) * 0.001)))
        0.01"
    using np symbol by simp
  with id floor show ?thesis
    apply (intro exI [where x = "fst (the (generate_tick g clk))"]
        exI [where x = "snd (the (generate_tick g clk))"]
        exI [where x = "xorshift64 (rng_state g)"])
    apply (simp add: ev)
    done
qed

theorem generate_tick_price_floor_witness:
  "gen_inv example_generator \<and> 1 \<le> unat (num_symbols example_generator) \<and>
   1 \<le> unat (num_venues example_generator) \<and>
   (\<exists>t g'.
      generate_tick example_generator example_clock = Some (t, g') \<and>
      0.01 \<le> last_price t \<and> 0 < last_price t \<and>
      current_price (symbols g' ! unat (symbol_id t)) = last_price t)"
  using example_generator_inv
    generate_tick_price_floor [of example_generator example_clock]
  by blast

text \<open>
  Claim C2, as amended. In a state satisfying \<open>gen_inv\<close> with a symbol and a venue
  configured, the spread in basis points is a draw from \<open>[0.5, 3.0)\<close>, doubled
  exactly when the selected symbol's current price before the update exceeds 500; the
  dollar spread is \<open>(spread_bps / 10000) * new_price\<close>, and bid and ask lie half of it
  below and above the new price.
\<close>

theorem generate_tick_spread:
  assumes "gen_inv g" and "1 \<le> unat (num_symbols g)" and "1 \<le> unat (num_venues g)"
  shows "\<exists>t g' s drawn.
           generate_tick g clk = Some (t, g') \<and>
           drawn = fst (fast_random_float s 0.5 3.0) \<and> 0.5 \<le> drawn \<and> drawn < 3 \<and>
           MarketTick.spread_bps t =
             (if current_price (symbols g ! unat (symbol_id t)) > 500 then drawn * 2 else drawn) \<and>
           bid_price t = last_price t - (MarketTick.spread_bps t / 10000 * last_price t) / 2 \<and>
           ask_price t = last_price t + (MarketTick.spread_bps t / 10000 * last_price t) / 2"
proof -
  from assms obtain r idx symbol dc s2 ds s3 new_price spread vol and vi :: u32 and bs az s7 where
    idx: "idx < unat (num_symbols g)"
    and symbol: "symbol = symbols g ! idx"
    and ds: "fast_random_float s2 0.5 3.0 = (ds, s3)"
    and sp: "spread = (if current_price symbol > 500 then ds * 2 else ds)"
    and ev: "generate_tick g clk =
       Some (\<lparr>MarketTick.timestamp_ns = now_ns clk, symbol_id = of_nat idx,
               bid_price = new_price - (spread / 10000) * new_price * 0.5,
               ask_price = new_price + (spread / 10000) * new_price * 0.5,
               bid_size = bs, ask_size = az, last_price = new_price, volume = vol,
               venue_id = ucast vi, MarketTick.spread_bps = spread\<rparr>,
             g\<lparr>symbols := (symbols g)
                   [idx := symbol\<lparr>current_price := new_price, last_update_ns := now_ns clk\<rparr>],
               rng_state := s7,
               total_ticks_generated := total_ticks_generated g + 1,
               generation_time_ns := generation_time_ns g + (end_time clk - start_time clk)\<rparr>)"
    by (rule generate_tick_cases [where clk = clk])
  note id = unat_symbol_id [OF assms(1) idx]
  have b: "0.5 \<le> ds" "ds < 3" using fast_random_float_bounds [OF ds] by simp_all
  have d: "ds = fst (fast_random_float s2 0.5 3.0)" using ds by simp
  have sp': "spread = (if current_price (symbols g ! idx) > 500 then ds * 2 else ds)"
    using sp symbol by simp
  show ?thesis
    apply (rule exI [where x = "fst (the (generate_tick g clk))"])
    apply (rule exI [where x = "snd (the (generate_tick g clk))"])
    apply (rule exI [where x = s2])
    apply (rule exI [where x = ds])
    using b d sp' id(1) by (simp add: ev)
qed

theorem generate_tick_spread_witness:
  "gen_inv example_generator \<and> 1 \<le> unat (num_symbols example_generator) \<and>
   1 \<le> unat (num_venues example_generator) \<and>
   (\<exists>t g' s drawn.
      generate_tick example_generator example_clock = Some (t, g') \<and>
      drawn = fst (fast_random_float s 0.5 3.0) \<and> 0.5 \<le> drawn \<and> drawn < 3 \<and>
      MarketTick.spread_bps t =
        (if current_price (symbols example_generator ! unat (symbol_id t)) > 500
         then drawn * 2 else drawn) \<and>
      bid_price t = last_price t - (MarketTick.spread_bps t / 10000 * last_price t) / 2 \<and>
      ask_price t = last_price t + (MarketTick.spread_bps t / 10000 * last_price t) / 2)"
  using example_generator_inv
    generate_tick_spread [of example_generator example_clock]
  by blast

lemma near_threshold_eval:
  "generate_tick near_threshold_generator example_clock =
     Some (\<lparr>MarketTick.timestamp_ns = 1500, symbol_id = 0,
             bid_price = max (499.5 * (1 + (- 0.003 + 13880553 / 16777216 * 0.006 + 0.01 * 0.001))) 0.01
                - ((0.5 + 946480 / 16777216 * 2.5) / 10000)
                  * max (499.5 * (1 + (- 0.003 + 13880553 / 16777216 * 0.006 + 0.01 * 0.001))) 0.01 * 0.5,
             ask_price = max (499.5 * (1 + (- 0.003 + 13880553 / 16777216 * 0.006 + 0.01 * 0.001))) 0.01
                + ((0.5 + 946480 / 16777216 * 2.5) / 10000)
                  * max (499.5 * (1 + (- 0.003 + 13880553 / 16777216 * 0.006 + 0.01 * 0.001))) 0.01 * 0.5,
             bid_size = 8763, ask_size = 1456,
             last_price = max (499.5 * (1 + (- 0.003 + 13880553 / 16777216 * 0.006 + 0.01 * 0.001))) 0.01,
             volume = 8719, venue_id = 3,
             MarketTick.spread_bps = 0.5 + 946480 / 16777216 * 2.5\<rparr>,
           near_threshold_generator
             \<lparr>symbols := (symbols near_threshold_generator)
                 [0 := (symbols near_threshold_generator ! 0)
                    \<lparr>current_price :=
                       max (499.5 * (1 + (- 0.003 + 13880553 / 16777216 * 0.006 + 0.01 * 0.001))) 0.01,
                     last_update_ns := 1500\<rparr>],
              rng_state := 2805029576044564453,
              total_ticks_generated := 1,
              generation_time_ns := 1000\<rparr>)"
proof -
  have tw: "sum_weights (symbols near_threshold_generator) (unat (num_symbols near_threshold_generator)) 0 0 = 5"
    by (simp add: near_threshold_generator_def sum_weights.simps)
  have r: "fast_random_uint32 (rng_state near_threshold_generator) 0
             (sum_weights (symbols near_threshold_generator)
                (unat (num_symbols near_threshold_generator)) 0 0 - 1) = Some (3, 8133020457231479873)"
    unfolding tw by (simp add: near_threshold_generator_def fast_random_uint32_def xorshift64_def Let_def)
  have idx: "weight_scan (symbols near_threshold_generator)
               (unat (num_symbols near_threshold_generator)) 3 0 0 = 0"
    by (simp add: near_threshold_generator_def weight_scan.simps)
  have dc: "fast_random_float 8133020457231479873
              (- volatility (symbols near_threshold_generator ! 0) * 0.01)
              (volatility (symbols near_threshold_generator ! 0) * 0.01)
            = (- 0.003 + 13880553 / 16777216 * 0.006, 3171565912995384553)"
    by (simp add: near_threshold_generator_def fast_random_float_def xorshift64_def Let_def)
  have ds: "fast_random_float 3171565912995384553 0.5 3.0
            = (0.5 + 946480 / 16777216 * 2.5, 837093304172441904)"
    by (simp add: fast_random_float_def xorshift64_def Let_def)
  have vlo: "float_to_uint32 (real (unat (avg_volume (symbols near_threshold_generator ! 0))) * 0.1)
             = Some 2000"
    by (simp add: near_threshold_generator_def float_to_uint32_def)
  have vhi: "float_to_uint32 (real (unat (avg_volume (symbols near_threshold_generator ! 0))) * 2.0)
             = Some 40000"
    by (simp add: near_threshold_generator_def float_to_uint32_def)
  have vol: "fast_random_uint32 837093304172441904 2000 40000 = Some (8719, 16229174863096324562)"
    by (simp add: fast_random_uint32_def xorshift64_def Let_def)
  have vi: "fast_random_uint32 16229174863096324562 0 (ucast (num_venues near_threshold_generator - 1))
            = Some (3, 2083527159932979473)"
    by (simp add: near_threshold_generator_def fast_random_uint32_def xorshift64_def Let_def)
  have bs: "fast_random_uint32 2083527159932979473 100 10000 = Some (8763, 12796178343529952067)"
    by (simp add: fast_random_uint32_def xorshift64_def Let_def)
  have az: "fast_random_uint32 12796178343529952067 100 10000 = Some (1456, 2805029576044564453)"
    by (simp add: fast_random_uint32_def xorshift64_def Let_def)
  have np: "max (current_price (symbols near_threshold_generator ! 0)
                 * (1 + (- 0.003 + 13880553 / 16777216 * 0.006
                         + price_trend (symbols near_threshold_generator ! 0) * 0.001))) 0.01
            = max (499.5 * (1 + (- 0.003 + 13880553 / 16777216 * 0.006 + 0.01 * 0.001))) 0.01"
    by (simp add: near_threshold_generator_def)
  have sp: "(if current_price (symbols near_threshold_generator ! 0) > 500
             then (0.5 + 946480 / 16777216 * 2.5) * 2 else 0.5 + 946480 / 16777216 * 2.5)
            = 0.5 + 946480 / 16777216 * 2.5"
    by (simp add: near_threshold_generator_def)
  have "generate_tick near_threshold_generator example_clock = Some
     (\<lparr>MarketTick.timestamp_ns = now_ns example_clock, symbol_id = of_nat 0,
        bid_price = max (499.5 * (1 + (- 0.003 + 13880553 / 16777216 * 0.006 + 0.01 * 0.001))) 0.01
           - ((0.5 + 946480 / 16777216 * 2.5) / 10000)
             * max (499.5 * (1 + (- 0.003 + 13880553 / 16777216 * 0.006 + 0.01 * 0.001))) 0.01 * 0.5,
        ask_price = max (499.5 * (1 + (- 0.003 + 13880553 / 16777216 * 0.006 + 0.01 * 0.001))) 0.01
           + ((0.5 + 946480 / 16777216 * 2.5) / 10000)
             * max (499.5 * (1 + (- 0.003 + 13880553 / 16777216 * 0.006 + 0.01 * 0.001))) 0.01 * 0.5,
        bid_size = 8763, ask_size = 1456,
        last_price = max (499.5 * (1 + (- 0.003 + 13880553 / 16777216 * 0.006 + 0.01 * 0.001))) 0.01,
        volume = 8719, venue_id = ucast (3 :: u32),
        MarketTick.spread_bps = 0.5 + 946480 / 16777216 * 2.5\<rparr>,
      near_threshold_generator
        \<lparr>symbols := (symbols near_threshold_generator)
            [0 := (symbols near_threshold_generator ! 0)
               \<lparr>current_price :=
                  max (499.5 * (1 + (- 0.003 + 13880553 / 16777216 * 0.006 + 0.01 * 0.001))) 0.01,
                last_update_ns := now_ns example_clock\<rparr>],
         rng_state := 2805029576044564453,
         total_ticks_generated := total_ticks_generated near_threshold_generator + 1,
         generation_time_ns := generation_time_ns near_threshold_generator
            + (end_time example_clock - start_time example_clock)\<rparr>)"
    by (rule generate_tick_eval [OF r idx refl dc ds vlo vhi vol vi bs az np sp])
  then show ?thesis
    by (simp add: example_clock_def near_threshold_generator_def)
qed

text \<open>
  Claim C2 as stated fails: the test for doubling reads the symbol's price before the
  update. Here the price before the update is 499.5, the new price exceeds 500, and the
  spread is the draw itself, below 1, where a doubled draw is at least 1.
\<close>

theorem generate_tick_spread_counterexample:
  "current_price (symbols near_threshold_generator ! 0) \<le> 500 \<and>
   generate_tick near_threshold_generator example_clock \<noteq> None \<and>
   symbol_id (fst (the (generate_tick near_threshold_generator example_clock))) = 0 \<and>
   500 < last_price (fst (the (generate_tick near_threshold_generator example_clock))) \<and>
   MarketTick.spread_bps (fst (the (generate_tick near_threshold_generator example_clock)))
     = fst (fast_random_float 3171565912995384553 0.5 3.0) \<and>
   MarketTick.spread_bps (fst (the (generate_tick near_threshold_generator example_clock))) < 1"
proof -
  have "fst (fast_random_float 3171565912995384553 0.5 3.0) = 0.5 + 946480 / 16777216 * 2.5"
    by (simp add: fast_random_float_def xorshift64_def Let_def)
  moreover have "current_price (symbols near_threshold_generator ! 0) \<le> 500"
    by (simp add: near_threshold_generator_def)
  ultimately show ?thesis
    by (simp add: near_threshold_eval)
qed

section \<open>Frame of \<open>generate_tick\<close>\<close>

text \<open>
  Claim C10. In a state satisfying \<open>gen_inv\<close> with a symbol and a venue configured,
  \<open>generate_tick\<close> changes the selected symbol's \<open>current_price\<close> and
  \<open>last_update_ns\<close>, the random state and the two performance counters, and nothing else:
  every other symbol, every other field of the selected symbol, the venues, both counts and
  the target interval are as before.
\<close>

theorem generate_tick_frame:
  assumes "gen_inv g" and "1 \<le> unat (num_symbols g)" and "1 \<le> unat (num_venues g)"
  shows "\<exists>t g'.
           generate_tick g clk = Some (t, g') \<and>
           g' = g\<lparr>symbols := (symbols g)
                     [unat (symbol_id t) := (symbols g ! unat (symbol_id t))
                        \<lparr>current_price := last_price t,
                         last_update_ns := MarketTick.timestamp_ns t\<rparr>],
                   rng_state := rng_state g',
                   total_ticks_generated := total_ticks_generated g + 1,
                   generation_time_ns := generation_time_ns g + (end_time clk - start_time clk)\<rparr> \<and>
           length (symbols g') = length (symbols g) \<and>
           (\<forall>j. j \<noteq> unat (symbol_id t) \<longrightarrow> symbols g' ! j = symbols g ! j) \<and>
           volatility (symbols g' ! unat (symbol_id t)) = volatility (symbols g ! unat (symbol_id t)) \<and>
           avg_volume (symbols g' ! unat (symbol_id t)) = avg_volume (symbols g ! unat (symbol_id t)) \<and>
           tick_multiplier (symbols g' ! unat (symbol_id t))
             = tick_multiplier (symbols g ! unat (symbol_id t)) \<and>
           price_trend (symbols g' ! unat (symbol_id t)) = price_trend (symbols g ! unat (symbol_id t)) \<and>
           symbol_name (symbols g' ! unat (symbol_id t)) = symbol_name (symbols g ! unat (symbol_id t)) \<and>
           venues g' = venues g \<and>
           num_symbols g' = num_symbols g \<and>
           num_venues g' = num_venues g \<and>
           target_tick_interval_ns g' = target_tick_interval_ns g"
proof -
  from assms obtain r idx symbol dc s2 ds s3 new_price spread vol and vi :: u32 and bs az s7 where
    idx: "idx < unat (num_symbols g)"
    and symbol: "symbol = symbols g ! idx"
    and ev: "generate_tick g clk =
       Some (\<lparr>MarketTick.timestamp_ns = now_ns clk, symbol_id = of_nat idx,
               bid_price = new_price - (spread / 10000) * new_price * 0.5,
               ask_price = new_price + (spread / 10000) * new_price * 0.5,
               bid_size = bs, ask_size = az, last_price = new_price, volume = vol,
               venue_id = ucast vi, MarketTick.spread_bps = spread\<rparr>,
             g\<lparr>symbols := (symbols g)
                   [idx := symbol\<lparr>current_price := new_price, last_update_ns := now_ns clk\<rparr>],
               rng_state := s7,
               total_ticks_generated := total_ticks_generated g + 1,
               generation_time_ns := generation_time_ns g + (end_time clk - start_time clk)\<rparr>)"
    by (rule generate_tick_cases [where clk = clk])
  note id = unat_symbol_id [OF assms(1) idx]
  show ?thesis
    using id symbol by (simp add: ev)
qed

theorem generate_tick_frame_witness:
  "gen_inv example_generator \<and> 1 \<le> unat (num_symbols example_generator) \<and>
   1 \<le> unat (num_venues example_generator) \<and>
   (\<exists>t g'.
      generate_tick example_generator example_clock = Some (t, g') \<and>
      g' = example_generator
             \<lparr>symbols := (symbols example_generator)
                 [unat (symbol_id t) := (symbols example_generator ! unat (symbol_id t))
                    \<lparr>current_price := last_price t,
                     last_update_ns := MarketTick.timestamp_ns t\<rparr>],
              rng_state := rng_state g',
              total_ticks_generated := total_ticks_generated example_generator + 1,
              generation_time_ns := generation_time_ns example_generator
                 + (end_time example_clock - start_time example_clock)\<rparr> \<and>
      venues g' = venues example_generator \<and>
      num_symbols g' = num_symbols example_generator \<and>
      num_venues g' = num_venues example_generator \<and>
      target_tick_interval_ns g' = target_tick_interval_ns example_generator)"
  using example_generator_inv
    generate_tick_frame [of example_generator example_clock]
  by blast

section \<open>Feature extraction\<close>

declare history_sums.simps [simp del] history_variance.simps [simp del]

lemma process_tick_no_history_eval:
  assumes "history_buffer = None \<or> history_size \<le> 1"
  shows "process_tick p features0 tick history_buffer history_size t_start t_end =
     Some (features0
             \<lparr>timestamp_ns := MarketTick.timestamp_ns tick,
              spread_bps := MarketTick.spread_bps tick,
              liquidity_score := ln (real (unat (bid_size tick + ask_size tick + 1))),
              venue_preference := real (unat (venue_id tick)) / 10,
              price_change := 0, volume_ratio := 1, volatility_5min := 0.02, momentum_1min := 0\<rparr>,
           p\<lparr>stats := (stats p)
               \<lparr>ticks_processed := ticks_processed (stats p) + 1,
                processing_time_ns := processing_time_ns (stats p) + (t_end - t_start),
                feature_calculations := feature_calculations (stats p) + 7\<rparr>\<rparr>)"
  using assms by (auto simp: process_tick_def Let_def simp del: of_nat_unat)

lemma unat_size_sum:
  fixes a b :: u32
  assumes "unat a + unat b + 1 < 2 ^ 32"
  shows "unat (a + b + 1) = unat a + unat b + 1"
proof -
  have "unat (a + b) = unat a + unat b" using assms by (intro unat_add_fit) simp
  moreover have "unat (a + b) + unat (1 :: u32) < 2 ^ 32" using assms calculation by simp
  ultimately show ?thesis using unat_add_fit [of "a + b" 1] by simp
qed

text \<open>
  Claim C4, as amended. With a null history buffer or a history of at most one entry,
  \<open>process_tick\<close> returns \<open>price_change = 0\<close>, \<open>volume_ratio = 1\<close>,
  \<open>volatility_5min = 0.02\<close> and \<open>momentum_1min = 0\<close>, copies \<open>spread_bps\<close> and
  \<open>timestamp_ns\<close> from the tick, sets \<open>venue_preference = venue_id / 10\<close>, and sets
  \<open>liquidity_score = ln (bid_size + ask_size + 1)\<close> provided \<open>bid_size + ask_size + 1\<close> is
  below \<open>2^32\<close>, the sum being computed in 32 bits.
\<close>

theorem process_tick_no_history:
  assumes "history_buffer = None \<or> history_size \<le> 1"
  shows "\<exists>f p'.
           process_tick p features0 tick history_buffer history_size t_start t_end = Some (f, p') \<and>
           price_change f = 0 \<and> volume_ratio f = 1 \<and> volatility_5min f = 0.02 \<and>
           momentum_1min f = 0 \<and>
           spread_bps f = MarketTick.spread_bps tick \<and>
           timestamp_ns f = MarketTick.timestamp_ns tick \<and>
           venue_preference f = real (unat (venue_id tick)) / 10 \<and>
           (unat (bid_size tick) + unat (ask_size tick) + 1 < 2 ^ 32 \<longrightarrow>
              liquidity_score f = ln (real (unat (bid_size tick) + unat (ask_size tick) + 1)))"
  unfolding process_tick_no_history_eval [OF assms]
  by (auto simp: unat_size_sum simp del: of_nat_unat)

theorem process_tick_no_history_witness:
  "((None :: MarketTick list option) = None \<or> (0 :: nat) \<le> 1) \<and>
   unat (bid_size example_tick) + unat (ask_size example_tick) + 1 < 2 ^ 32 \<and>
   (\<exists>f p'.
      process_tick example_processor stale_features example_tick None 0 1000 2000 = Some (f, p') \<and>
      price_change f = 0 \<and> volume_ratio f = 1 \<and> volatility_5min f = 0.02 \<and>
      momentum_1min f = 0 \<and>
      spread_bps f = 2.5 \<and>
      timestamp_ns f = 1500 \<and>
      venue_preference f = 2 / 10 \<and>
      liquidity_score f = ln 801)"
proof -
  have fit: "unat (bid_size example_tick) + unat (ask_size example_tick) + 1 < 2 ^ 32"
    by (simp add: example_tick_def)
  have h: "(None :: MarketTick list option) = None \<or> (0 :: nat) \<le> 1" by simp
  from process_tick_no_history [OF h, of example_processor stale_features example_tick 1000 2000]
  obtain f p' where
    "process_tick example_processor stale_features example_tick None 0 1000 2000 = Some (f, p')"
    "price_change f = 0" "volume_ratio f = 1" "volatility_5min f = 0.02" "momentum_1min f = 0"
    "spread_bps f = MarketTick.spread_bps example_tick"
    "timestamp_ns f = MarketTick.timestamp_ns example_tick"
    "venue_preference f = real (unat (venue_id example_tick)) / 10"
    "unat (bid_size example_tick) + unat (ask_size example_tick) + 1 < 2 ^ 32 \<longrightarrow>
       liquidity_score f = ln (real (unat (bid_size example_tick) + unat (ask_size example_tick) + 1))"
    by blast
  with fit show ?thesis
    by (auto simp: example_tick_def)
qed

text \<open>
  Claim C4 as stated fails where the sizes add up to \<open>2^32\<close> or more: for displayed sizes
  4294967295 and 1 the 32-bit sum \<open>bid_size + ask_size + 1\<close> is 1, so \<open>liquidity_score\<close> is
  \<open>ln 1 = 0\<close> and not \<open>ln 4294967297\<close>.
\<close>

theorem process_tick_liquidity_counterexample:
  "process_tick example_processor stale_features large_size_tick None 0 1000 2000 \<noteq> None \<and>
   liquidity_score
     (fst (the (process_tick example_processor stale_features large_size_tick None 0 1000 2000))) = 0 \<and>
   ln (real (unat (bid_size large_size_tick) + unat (ask_size large_size_tick) + 1)) \<noteq> 0"
proof -
  have "ln (4294967297 :: real) \<noteq> 0" by (simp add: ln_eq_zero_iff)
  then show ?thesis
    by (simp add: process_tick_no_history_eval large_size_tick_def example_tick_def)
qed

lemma process_tick_history_eval:
  assumes "1 < history_size" and "history_size \<le> length buf"
  shows "\<exists>f p'.
           process_tick p features0 tick (Some buf) history_size t_start t_end = Some (f, p') \<and>
           momentum_1min f =
             (if 5 \<le> min history_size 10
              then (last_price tick - last_price (buf ! (history_size - 5)))
                     / last_price (buf ! (history_size - 5))
              else momentum_1min features0)"
  using assms
  by (auto simp: process_tick_def Let_def split: prod.splits simp del: of_nat_unat)

text \<open>
  Claim C7. With a history of more than one entry, \<open>momentum_1min\<close> is assigned only when
  the recent window has at least five entries. The claim says it is 0 otherwise; the
  function leaves the field unassigned there, so the result holds what the storage of the
  uninitialised local held. Here the history has three entries and the storage held 7.
\<close>

theorem process_tick_momentum_unassigned:
  "process_tick example_processor stale_features example_tick (Some short_history) 3 1000 2000
     \<noteq> None \<and>
   momentum_1min
     (fst (the (process_tick example_processor stale_features example_tick
                  (Some short_history) 3 1000 2000))) = 7"
proof -
  have "(1 :: nat) < 3" and "3 \<le> length short_history" by (simp_all add: short_history_def)
  from process_tick_history_eval [OF this, of example_processor stale_features example_tick 1000 2000]
  show ?thesis by (auto simp: stale_features_def)
qed

section \<open>Risk metrics\<close>

text \<open>
  Claim C5. \<open>calculate_risk_metrics\<close> returns
  \<open>position_risk = |p| * volatility_5min * 1000\<close>,
  \<open>market_impact_estimate = |p| * spread_bps * 0.1\<close>,
  \<open>execution_cost_estimate = |p| * (spread_bps * 0.5 + 0.5)\<close>, and
  \<open>risk_limit_exceeded\<close> is true exactly when \<open>position_risk > 10000\<close> or
  \<open>|price_change| > 0.05\<close> or \<open>volatility_5min > 0.10\<close>.
\<close>

theorem calculate_risk_metrics_formulas:
  "position_risk (calculate_risk_metrics f p) = \<bar>p\<bar> * volatility_5min f * 1000 \<and>
   market_impact_estimate (calculate_risk_metrics f p) = \<bar>p\<bar> * spread_bps f * 0.1 \<and>
   execution_cost_estimate (calculate_risk_metrics f p) = \<bar>p\<bar> * (spread_bps f * 0.5 + 0.5) \<and>
   risk_limit_exceeded (calculate_risk_metrics f p) =
     (position_risk (calculate_risk_metrics f p) > 10000 \<or>
      \<bar>price_change f\<bar> > 0.05 \<or> volatility_5min f > 0.10)"
  by (simp add: calculate_risk_metrics_def Let_def)

section \<open>Batch generation\<close>

declare batch_loop.simps [simp del]

lemma generate_tick_step:
  assumes "gen_inv g" and "1 \<le> unat (num_symbols g)" and "1 \<le> unat (num_venues g)"
  shows "\<exists>t g'. generate_tick g clk = Some (t, g') \<and>
           MarketTick.timestamp_ns t = now_ns clk \<and>
           gen_inv g' \<and> num_symbols g' = num_symbols g \<and> num_venues g' = num_venues g \<and>
           target_tick_interval_ns g' = target_tick_interval_ns g \<and>
           rng_state g' = (xorshift64 ^^ 7) (rng_state g)"
proof -
  from assms obtain r idx symbol dc s2 ds s3 new_price spread vol and vi :: u32 and bs az s7 where
    idx: "idx < unat (num_symbols g)"
    and symbol: "symbol = symbols g ! idx"
    and ev: "generate_tick g clk =
       Some (\<lparr>MarketTick.timestamp_ns = now_ns clk, symbol_id = of_nat idx,
               bid_price = new_price - (spread / 10000) * new_price * 0.5,
               ask_price = new_price + (spread / 10000) * new_price * 0.5,
               bid_size = bs, ask_size = az, last_price = new_price, volume = vol,
               venue_id = ucast vi, MarketTick.spread_bps = spread\<rparr>,
             g\<lparr>symbols := (symbols g)
                   [idx := symbol\<lparr>current_price := new_price, last_update_ns := now_ns clk\<rparr>],
               rng_state := s7,
               total_ticks_generated := total_ticks_generated g + 1,
               generation_time_ns := generation_time_ns g + (end_time clk - start_time clk)\<rparr>)"
    and s7: "s7 = (xorshift64 ^^ 7) (rng_state g)"
    by (rule generate_tick_cases [where clk = clk])
  have "gen_inv (g\<lparr>symbols := (symbols g)
                   [idx := symbol\<lparr>current_price := new_price, last_update_ns := now_ns clk\<rparr>],
               rng_state := s7,
               total_ticks_generated := total_ticks_generated g + 1,
               generation_time_ns := generation_time_ns g + (end_time clk - start_time clk)\<rparr>)"
    using assms(1) symbol unat_symbol_id(2) [OF assms(1) idx]
    by (auto simp: gen_inv_def nth_list_update)
  then show ?thesis by (simp add: ev s7)
qed

lemma gen_inv_rng_state [simp]: "gen_inv (g\<lparr>rng_state := s\<rparr>) = gen_inv g"
  by (simp add: gen_inv_def)

lemma jitter_draw:
  fixes I :: u64
  assumes "I \<le> 1000000000"
  shows "\<exists>j. fast_random_uint32 s 0 (ucast (I div 10)) = Some (j, xorshift64 s) \<and>
             unat j \<le> unat I div 10"
proof -
  have I: "unat I \<le> 1000000000" using assms by (simp add: word_le_nat_alt)
  have d: "unat (I div 10) = unat I div 10" by (simp add: unat_div)
  have "unat (I div 10) < 2 ^ 32" using I d by simp
  then have h: "unat (ucast (I div 10) :: u32) = unat I div 10"
    using d by (simp add: unat_ucast_64_32)
  have fit: "unat (ucast (I div 10) :: u32) - unat (0 :: u32) + 1 < 2 ^ 32"
    using h I by simp
  obtain j where j: "fast_random_uint32 s 0 (ucast (I div 10)) = Some (j, xorshift64 s)"
    and uj: "unat j = unat (0 :: u32) + unat (xorshift64 s)
               mod (unat (ucast (I div 10) :: u32) - unat (0 :: u32) + 1)"
    using fast_random_uint32_draw [of 0 "ucast (I div 10)" s, OF _ fit] by auto
  have "unat j < unat I div 10 + 1" unfolding uj h by simp
  then show ?thesis using j by auto
qed

lemma unat_add_jitter:
  fixes a I :: u64 and j :: u32
  assumes "unat a + unat I + unat j < 2 ^ 64"
  shows "unat (a + (I + ucast j)) = unat a + unat I + unat j"
proof -
  have u: "unat (ucast j :: u64) = unat j" by (rule unat_ucast_32_64)
  have "unat I + unat (ucast j :: u64) < 2 ^ LENGTH(64)" using assms u by simp
  then have 1: "unat (I + ucast j) = unat I + unat j"
    using u unat_add_lem [of I "ucast j"] by simp
  have "unat a + unat (I + ucast j) < 2 ^ LENGTH(64)" using assms 1 by simp
  then show ?thesis using 1 unat_add_lem [of a "I + ucast j"] by simp
qed

text \<open>
  \<open>generate_tick\<close> draws seven numbers and every iteration of the batch after the first
  draws an eighth, the jitter.
\<close>

lemma draws_after_tick:
  "(xorshift64 ^^ 7) ((xorshift64 ^^ (8 * i - 1)) s0)
     = (if i = 0 then (xorshift64 ^^ 7) s0 else (xorshift64 ^^ (8 * i + 6)) s0)"
proof (cases "i = 0")
  case True
  then show ?thesis by simp
next
  case False
  then have "7 + (8 * i - 1) = 8 * i + 6" by simp
  then have "(xorshift64 ^^ 7) ((xorshift64 ^^ (8 * i - 1)) s0) = (xorshift64 ^^ (8 * i + 6)) s0"
    by (metis funpow_add comp_apply)
  with False show ?thesis by simp
qed

lemma wrapped_step:
  fixes x :: u64
  assumes "0 < unat x"
  shows "unat (18446744073709551615 + x) = unat x - 1"
proof -
  have "x \<noteq> 0" using assms by auto
  then have "unat (x - 1) = unat x - 1" by (rule unat_minus_one)
  moreover have "(18446744073709551615 :: u64) + x = x - 1" by simp
  ultimately show ?thesis by (simp only:)
qed

text \<open>
  The loop from index \<open>i\<close> on, where the random state is the one reached from \<open>s0\<close> by
  the draws of the first \<open>i\<close> iterations: the loop returns, leaves the slots below \<open>i\<close>
  alone, stores in slot 0 the tick of the first call, and gives every later slot \<open>k\<close> the
  timestamp of slot \<open>k - 1\<close> plus the interval plus the jitter that \<open>fast_random_uint32\<close>
  draws from the state left by the \<open>k\<close>-th call of \<open>generate_tick\<close>.
\<close>

lemma batch_loop_spec:
  assumes "gen_inv g" and "1 \<le> unat (num_symbols g)" and "1 \<le> unat (num_venues g)"
    and "target_tick_interval_ns g = I"
    and "count \<le> length buf" and "i \<le> count"
    and "rng_state g = (xorshift64 ^^ (8 * i - 1)) s0"
  shows "\<exists>out g'. batch_loop g clks buf count i = Some (out, g') \<and>
           length out = length buf \<and>
           (\<forall>k<i. out ! k = buf ! k) \<and>
           (i = 0 \<and> 0 < count \<longrightarrow>
              (\<exists>g1. generate_tick g (clks 0) = Some (out ! 0, g1)) \<and>
              MarketTick.timestamp_ns (out ! 0) = now_ns (clks 0)) \<and>
           (\<forall>k. i \<le> k \<and> k < count \<and> 0 < k \<longrightarrow>
              (\<exists>j :: u32.
                 fast_random_uint32 ((xorshift64 ^^ (8 * k + 6)) s0) 0 (ucast (I div 10))
                   = Some (j, xorshift64 ((xorshift64 ^^ (8 * k + 6)) s0)) \<and>
                 unat j \<le> unat I div 10 \<and>
                 MarketTick.timestamp_ns (out ! k)
                   = MarketTick.timestamp_ns (out ! (k - 1)) + (I + ucast j)))"
  using assms
proof (induction d \<equiv> "count - i" arbitrary: g buf i)
  case 0
  then have "i = count" by simp
  then have "batch_loop g clks buf count i = Some (buf, g)"
    by (subst batch_loop.simps) simp
  with \<open>i = count\<close> show ?case by auto
next
  case (Suc d)
  from Suc.hyps(2) have lt: "i < count" and d: "d = count - Suc i" by simp_all
  have il: "i < length buf" using lt Suc.prems(5) by simp
  have I9: "I \<le> 1000000000" using Suc.prems(1,4) by (auto simp: gen_inv_def)
  obtain tick g1 where gt: "generate_tick g (clks i) = Some (tick, g1)"
    and ts: "MarketTick.timestamp_ns tick = now_ns (clks i)"
    and inv1: "gen_inv g1" and ns1: "num_symbols g1 = num_symbols g"
    and nv1: "num_venues g1 = num_venues g" and iv1: "target_tick_interval_ns g1 = I"
    and rng1: "rng_state g1 = (xorshift64 ^^ 7) (rng_state g)"
    using generate_tick_step [OF Suc.prems(1,2,3), of "clks i"] Suc.prems(4) by auto
  have rng1': "rng_state g1
                 = (if i = 0 then (xorshift64 ^^ 7) s0 else (xorshift64 ^^ (8 * i + 6)) s0)"
    unfolding rng1 Suc.prems(7) by (rule draws_after_tick)
  show ?case
  proof (cases "i = 0")
    case True
    have unfold: "batch_loop g clks buf count i = batch_loop g1 clks (buf[0 := tick]) count (Suc 0)"
      using True lt il gt by (subst batch_loop.simps) simp
    have r1: "rng_state g1 = (xorshift64 ^^ (8 * Suc 0 - 1)) s0"
      using rng1' True by simp
    from Suc.hyps(1) [of "Suc 0" g1 "buf[0 := tick]"] d True inv1 ns1 nv1 iv1 Suc.prems(2,3,5) lt r1
    obtain out g' where out: "batch_loop g1 clks (buf[0 := tick]) count (Suc 0) = Some (out, g')"
      and lo: "length out = length (buf[0 := tick])"
      and pre: "\<forall>k<Suc 0. out ! k = buf[0 := tick] ! k"
      and step: "\<forall>k. Suc 0 \<le> k \<and> k < count \<and> 0 < k \<longrightarrow>
              (\<exists>j :: u32.
                 fast_random_uint32 ((xorshift64 ^^ (8 * k + 6)) s0) 0 (ucast (I div 10))
                   = Some (j, xorshift64 ((xorshift64 ^^ (8 * k + 6)) s0)) \<and>
                 unat j \<le> unat I div 10 \<and>
                 MarketTick.timestamp_ns (out ! k)
                   = MarketTick.timestamp_ns (out ! (k - 1)) + (I + ucast j))"
      by auto
    have o0: "out ! 0 = tick" using pre il True by simp
    have first: "(\<exists>g1. generate_tick g (clks 0) = Some (out ! 0, g1)) \<and>
                 MarketTick.timestamp_ns (out ! 0) = now_ns (clks 0)"
      using o0 gt ts True by auto
    have "length out = length buf" using lo by simp
    with out first step unfold True show ?thesis by auto
  next
    case False
    then have pos: "0 < i" by simp
    have r1: "rng_state g1 = (xorshift64 ^^ (8 * i + 6)) s0" using rng1' False by simp
    obtain j where j: "fast_random_uint32 (rng_state g1) 0
                         (ucast (target_tick_interval_ns g1 div 10))
                       = Some (j, xorshift64 (rng_state g1))"
      and uj: "unat j \<le> unat I div 10"
      using jitter_draw [OF I9, of "rng_state g1"] iv1 by auto
    have j': "fast_random_uint32 ((xorshift64 ^^ (8 * i + 6)) s0) 0 (ucast (I div 10))
                = Some (j, xorshift64 ((xorshift64 ^^ (8 * i + 6)) s0))"
      using j iv1 r1 by simp
    define prev where "prev = MarketTick.timestamp_ns (buf ! (i - 1))"
    define tick' where "tick' = tick\<lparr>MarketTick.timestamp_ns := prev + (I + ucast j)\<rparr>"
    define buf2 where "buf2 = buf[i := tick']"
    define g2 where "g2 = g1\<lparr>rng_state := xorshift64 (rng_state g1)\<rparr>"
    have unfold: "batch_loop g clks buf count i = batch_loop g2 clks buf2 count (Suc i)"
      using pos lt il gt j iv1
      by (subst batch_loop.simps) (simp add: Let_def buf2_def tick'_def prev_def g2_def)
    have at_i: "MarketTick.timestamp_ns (buf2 ! i) = prev + (I + ucast j)"
      using il by (simp add: buf2_def tick'_def)
    have inv2: "gen_inv g2" using inv1 by (simp add: g2_def)
    have same2: "num_symbols g2 = num_symbols g" "num_venues g2 = num_venues g"
        "target_tick_interval_ns g2 = I"
      using ns1 nv1 iv1 by (simp_all add: g2_def)
    have "8 * Suc i - 1 = Suc (8 * i + 6)" by simp
    then have "(xorshift64 ^^ (8 * Suc i - 1)) s0 = xorshift64 ((xorshift64 ^^ (8 * i + 6)) s0)"
      by (simp only: funpow.simps comp_apply)
    then have r2: "rng_state g2 = (xorshift64 ^^ (8 * Suc i - 1)) s0"
      using r1 by (simp add: g2_def)
    have len2: "count \<le> length buf2" using Suc.prems(5) by (simp add: buf2_def)
    from Suc.hyps(1) [of "Suc i" g2 buf2] d inv2 same2 Suc.prems(2,3) len2 lt r2
    obtain out g' where out: "batch_loop g2 clks buf2 count (Suc i) = Some (out, g')"
      and lo: "length out = length buf2"
      and pre: "\<forall>k<Suc i. out ! k = buf2 ! k"
      and step: "\<forall>k. Suc i \<le> k \<and> k < count \<and> 0 < k \<longrightarrow>
              (\<exists>j :: u32.
                 fast_random_uint32 ((xorshift64 ^^ (8 * k + 6)) s0) 0 (ucast (I div 10))
                   = Some (j, xorshift64 ((xorshift64 ^^ (8 * k + 6)) s0)) \<and>
                 unat j \<le> unat I div 10 \<and>
                 MarketTick.timestamp_ns (out ! k)
                   = MarketTick.timestamp_ns (out ! (k - 1)) + (I + ucast j))"
      by auto
    have same: "out ! k = buf ! k" if "k < i" for k
      using pre that by (simp add: buf2_def)
    have oi: "MarketTick.timestamp_ns (out ! i) = prev + (I + ucast j)"
      using pre at_i by simp
    have op: "MarketTick.timestamp_ns (out ! (i - 1)) = prev"
      using same [of "i - 1"] pos by (simp add: prev_def)
    have here: "\<exists>j :: u32.
                 fast_random_uint32 ((xorshift64 ^^ (8 * i + 6)) s0) 0 (ucast (I div 10))
                   = Some (j, xorshift64 ((xorshift64 ^^ (8 * i + 6)) s0)) \<and>
                 unat j \<le> unat I div 10 \<and>
                 MarketTick.timestamp_ns (out ! i)
                   = MarketTick.timestamp_ns (out ! (i - 1)) + (I + ucast j)"
      using j' uj oi op by auto
    have all: "\<exists>j :: u32.
                 fast_random_uint32 ((xorshift64 ^^ (8 * k + 6)) s0) 0 (ucast (I div 10))
                   = Some (j, xorshift64 ((xorshift64 ^^ (8 * k + 6)) s0)) \<and>
                 unat j \<le> unat I div 10 \<and>
                 MarketTick.timestamp_ns (out ! k)
                   = MarketTick.timestamp_ns (out ! (k - 1)) + (I + ucast j)"
      if "i \<le> k" "k < count" for k
    proof (cases "k = i")
      case True
      then show ?thesis using here by simp
    next
      case False
      then have "Suc i \<le> k" "0 < k" using that by simp_all
      then show ?thesis using step that by blast
    qed
    have "length out = length buf" using lo by (simp add: buf2_def)
    with out unfold same all False show ?thesis by auto
  qed
qed

text \<open>
  Claim C8, as amended. In a state satisfying \<open>gen_inv\<close> with a symbol and a venue
  configured, for a positive target interval and an output buffer of at least \<open>count\<close>
  slots, \<open>generate_tick_batch\<close> returns. Slot 0 holds the tick of the first call of
  \<open>generate_tick\<close> with the timestamp that call assigned. Every later slot \<open>i\<close> carries the
  timestamp of slot \<open>i - 1\<close> plus the interval plus a jitter, in 64-bit arithmetic; the
  jitter is the number \<open>fast_random_uint32\<close> draws between 0 and a tenth of the interval
  from the random state reached after \<open>8 * i + 6\<close> draws, seven for each call of
  \<open>generate_tick\<close> and one for each earlier jitter. Wherever that 64-bit sum does not wrap,
  the timestamp is strictly greater than the one before it and at least the interval later;
  no sum of the batch wraps when the first timestamp leaves room for \<open>count - 1\<close> steps of
  1.1 intervals below \<open>2^64\<close>.
\<close>

theorem generate_tick_batch_timestamps_no_wrap:
  assumes "gen_inv g" and "1 \<le> unat (num_symbols g)" and "1 \<le> unat (num_venues g)"
    and "0 < target_tick_interval_ns g"
    and "2 \<le> count" and "count \<le> length output_buffer"
  shows "\<exists>out g'.
           generate_tick_batch g clks batch_start batch_end output_buffer count = Some (out, g') \<and>
           (\<exists>g1. generate_tick g (clks 0) = Some (out ! 0, g1)) \<and>
           MarketTick.timestamp_ns (out ! 0) = now_ns (clks 0) \<and>
           (\<forall>i. 1 \<le> i \<and> i < count \<longrightarrow>
              (\<exists>(jitter :: u32) s.
                 fast_random_uint32 ((xorshift64 ^^ (8 * i + 6)) (rng_state g)) 0
                     (ucast (target_tick_interval_ns g div 10)) = Some (jitter, s) \<and>
                 unat jitter \<le> unat (target_tick_interval_ns g) div 10 \<and>
                 MarketTick.timestamp_ns (out ! i)
                   = MarketTick.timestamp_ns (out ! (i - 1))
                     + (target_tick_interval_ns g + ucast jitter) \<and>
                 (unat (MarketTick.timestamp_ns (out ! (i - 1)))
                    + unat (target_tick_interval_ns g) + unat jitter < 2 ^ 64 \<longrightarrow>
                  unat (MarketTick.timestamp_ns (out ! i))
                    = unat (MarketTick.timestamp_ns (out ! (i - 1)))
                      + unat (target_tick_interval_ns g) + unat jitter \<and>
                  MarketTick.timestamp_ns (out ! (i - 1)) < MarketTick.timestamp_ns (out ! i) \<and>
                  unat (MarketTick.timestamp_ns (out ! (i - 1))) + unat (target_tick_interval_ns g)
                    \<le> unat (MarketTick.timestamp_ns (out ! i))))) \<and>
           (unat (now_ns (clks 0))
              + (count - 1) * (unat (target_tick_interval_ns g)
                               + unat (target_tick_interval_ns g) div 10) < 2 ^ 64 \<longrightarrow>
            (\<forall>i. 1 \<le> i \<and> i < count \<longrightarrow>
               MarketTick.timestamp_ns (out ! (i - 1)) < MarketTick.timestamp_ns (out ! i) \<and>
               unat (MarketTick.timestamp_ns (out ! (i - 1))) + unat (target_tick_interval_ns g)
                 \<le> unat (MarketTick.timestamp_ns (out ! i))))"
proof -
  define I where "I = target_tick_interval_ns g"
  have Ipos: "0 < unat I" using assms(4) by (simp add: I_def word_less_nat_alt)
  have rng: "rng_state g = (xorshift64 ^^ (8 * 0 - 1)) (rng_state g)" by simp
  from batch_loop_spec [of g I count output_buffer 0 "rng_state g" clks, OF assms(1,2,3) _ assms(6) _ rng]
    assms(5)
  obtain out g' where out: "batch_loop g clks output_buffer count 0 = Some (out, g')"
    and first: "\<exists>g1. generate_tick g (clks 0) = Some (out ! 0, g1)"
      "MarketTick.timestamp_ns (out ! 0) = now_ns (clks 0)"
    and step: "\<forall>k. 0 \<le> k \<and> k < count \<and> 0 < k \<longrightarrow>
              (\<exists>j :: u32.
                 fast_random_uint32 ((xorshift64 ^^ (8 * k + 6)) (rng_state g)) 0 (ucast (I div 10))
                   = Some (j, xorshift64 ((xorshift64 ^^ (8 * k + 6)) (rng_state g))) \<and>
                 unat j \<le> unat I div 10 \<and>
                 MarketTick.timestamp_ns (out ! k)
                   = MarketTick.timestamp_ns (out ! (k - 1)) + (I + ucast j))"
    by (auto simp: I_def)
  have draw: "\<exists>j :: u32.
                 fast_random_uint32 ((xorshift64 ^^ (8 * i + 6)) (rng_state g)) 0 (ucast (I div 10))
                   = Some (j, xorshift64 ((xorshift64 ^^ (8 * i + 6)) (rng_state g))) \<and>
                 unat j \<le> unat I div 10 \<and>
                 MarketTick.timestamp_ns (out ! i)
                   = MarketTick.timestamp_ns (out ! (i - 1)) + (I + ucast j)"
    if "1 \<le> i" "i < count" for i
    using step that by simp
  have no_wrap: "unat (MarketTick.timestamp_ns (out ! i))
            = unat (MarketTick.timestamp_ns (out ! (i - 1))) + unat I + unat j \<and>
          MarketTick.timestamp_ns (out ! (i - 1)) < MarketTick.timestamp_ns (out ! i) \<and>
          unat (MarketTick.timestamp_ns (out ! (i - 1))) + unat I
            \<le> unat (MarketTick.timestamp_ns (out ! i))"
    if eq: "MarketTick.timestamp_ns (out ! i)
              = MarketTick.timestamp_ns (out ! (i - 1)) + (I + ucast j)"
      and fit: "unat (MarketTick.timestamp_ns (out ! (i - 1))) + unat I + unat j < 2 ^ 64"
    for i and j :: u32
  proof -
    have u: "unat (MarketTick.timestamp_ns (out ! i))
               = unat (MarketTick.timestamp_ns (out ! (i - 1))) + unat I + unat j"
      unfolding eq using fit by (rule unat_add_jitter)
    then have "unat (MarketTick.timestamp_ns (out ! (i - 1))) < unat (MarketTick.timestamp_ns (out ! i))"
      using Ipos by simp
    then have "MarketTick.timestamp_ns (out ! (i - 1)) < MarketTick.timestamp_ns (out ! i)"
      by (simp add: word_less_nat_alt)
    with u show ?thesis by simp
  qed
  have paced: "\<exists>(jitter :: u32) s.
                 fast_random_uint32 ((xorshift64 ^^ (8 * i + 6)) (rng_state g)) 0 (ucast (I div 10))
                   = Some (jitter, s) \<and>
                 unat jitter \<le> unat I div 10 \<and>
                 MarketTick.timestamp_ns (out ! i)
                   = MarketTick.timestamp_ns (out ! (i - 1)) + (I + ucast jitter) \<and>
                 (unat (MarketTick.timestamp_ns (out ! (i - 1))) + unat I + unat jitter < 2 ^ 64 \<longrightarrow>
                  unat (MarketTick.timestamp_ns (out ! i))
                    = unat (MarketTick.timestamp_ns (out ! (i - 1))) + unat I + unat jitter \<and>
                  MarketTick.timestamp_ns (out ! (i - 1)) < MarketTick.timestamp_ns (out ! i) \<and>
                  unat (MarketTick.timestamp_ns (out ! (i - 1))) + unat I
                    \<le> unat (MarketTick.timestamp_ns (out ! i)))"
    if "1 \<le> i" "i < count" for i
  proof -
    from draw [OF that] obtain j :: u32 where
      j: "fast_random_uint32 ((xorshift64 ^^ (8 * i + 6)) (rng_state g)) 0 (ucast (I div 10))
            = Some (j, xorshift64 ((xorshift64 ^^ (8 * i + 6)) (rng_state g)))"
        "unat j \<le> unat I div 10"
        "MarketTick.timestamp_ns (out ! i) = MarketTick.timestamp_ns (out ! (i - 1)) + (I + ucast j)"
      by blast
    from no_wrap [OF j(3)] j show ?thesis by blast
  qed
  have room: "MarketTick.timestamp_ns (out ! (i - 1)) < MarketTick.timestamp_ns (out ! i) \<and>
              unat (MarketTick.timestamp_ns (out ! (i - 1))) + unat I
                \<le> unat (MarketTick.timestamp_ns (out ! i))"
    if fits: "unat (now_ns (clks 0)) + (count - 1) * (unat I + unat I div 10) < 2 ^ 64"
      and i: "1 \<le> i" "i < count" for i
  proof -
    define w where "w = unat I + unat I div 10"
    have bound: "k < count \<Longrightarrow>
                 unat (MarketTick.timestamp_ns (out ! k)) \<le> unat (now_ns (clks 0)) + k * w" for k
    proof (induction k)
      case 0
      then show ?case using first(2) by simp
    next
      case (Suc k)
      then have k: "unat (MarketTick.timestamp_ns (out ! k)) \<le> unat (now_ns (clks 0)) + k * w"
        by simp
      from draw [of "Suc k"] Suc.prems obtain j :: u32 where
        j: "unat j \<le> unat I div 10"
          "MarketTick.timestamp_ns (out ! Suc k) = MarketTick.timestamp_ns (out ! k) + (I + ucast j)"
        by auto
      have "Suc k * w \<le> (count - 1) * w" using Suc.prems by (intro mult_right_mono) simp_all
      then have le: "unat (now_ns (clks 0)) + Suc k * w < 2 ^ 64"
        using fits by (simp add: w_def)
      have "unat (MarketTick.timestamp_ns (out ! k)) + unat I + unat j
              \<le> unat (now_ns (clks 0)) + Suc k * w"
        using k j(1) by (simp add: w_def)
      then have fit: "unat (MarketTick.timestamp_ns (out ! k)) + unat I + unat j < 2 ^ 64"
        using le by simp
      have "unat (MarketTick.timestamp_ns (out ! Suc k))
              = unat (MarketTick.timestamp_ns (out ! k)) + unat I + unat j"
        unfolding j(2) using fit by (rule unat_add_jitter)
      then show ?case using k j(1) by (simp add: w_def)
    qed
    from draw [OF i] obtain j :: u32 where
      j: "unat j \<le> unat I div 10"
        "MarketTick.timestamp_ns (out ! i) = MarketTick.timestamp_ns (out ! (i - 1)) + (I + ucast j)"
      by blast
    have "i - 1 < count" using i by simp
    from bound [OF this]
    have "unat (MarketTick.timestamp_ns (out ! (i - 1))) + unat I + unat j
            \<le> unat (now_ns (clks 0)) + (i - 1) * w + w"
      using j(1) by (simp add: w_def)
    also have "\<dots> = unat (now_ns (clks 0)) + i * w"
      using i(1) by (simp add: algebra_simps mult_eq_if)
    also have "\<dots> \<le> unat (now_ns (clks 0)) + (count - 1) * w"
    proof -
      have "i \<le> count - 1" using i(2) by simp
      then have "i * w \<le> (count - 1) * w" by (rule mult_le_mono1)
      then show ?thesis by simp
    qed
    finally have "unat (MarketTick.timestamp_ns (out ! (i - 1))) + unat I + unat j < 2 ^ 64"
      using fits by (simp add: w_def)
    from no_wrap [OF j(2) this] show ?thesis by simp
  qed
  have "generate_tick_batch g clks batch_start batch_end output_buffer count
          = Some (out, g'\<lparr>generation_time_ns := generation_time_ns g' + (batch_end - batch_start)\<rparr>)"
    by (simp add: generate_tick_batch_def out)
  with first paced room show ?thesis unfolding I_def by blast
qed

theorem generate_tick_batch_timestamps_no_wrap_witness:
  "gen_inv example_generator \<and> 1 \<le> unat (num_symbols example_generator) \<and>
   1 \<le> unat (num_venues example_generator) \<and>
   0 < target_tick_interval_ns example_generator \<and>
   (2 :: nat) \<le> 3 \<and> 3 \<le> length (replicate 3 example_tick) \<and>
   unat (now_ns example_clock)
     + (3 - 1) * (unat (target_tick_interval_ns example_generator)
                  + unat (target_tick_interval_ns example_generator) div 10) < (2 :: nat) ^ 64 \<and>
   (\<exists>out g'.
      generate_tick_batch example_generator (\<lambda>i. example_clock) 1000 5000
        (replicate 3 example_tick) 3 = Some (out, g') \<and>
      MarketTick.timestamp_ns (out ! 0) = 1500 \<and>
      MarketTick.timestamp_ns (out ! 0) < MarketTick.timestamp_ns (out ! 1) \<and>
      MarketTick.timestamp_ns (out ! 1) < MarketTick.timestamp_ns (out ! 2) \<and>
      unat (MarketTick.timestamp_ns (out ! 0)) + 10000000 \<le> unat (MarketTick.timestamp_ns (out ! 1)) \<and>
      unat (MarketTick.timestamp_ns (out ! 1)) + 10000000 \<le> unat (MarketTick.timestamp_ns (out ! 2)))"
proof -
  have h4: "0 < target_tick_interval_ns example_generator"
    and iv: "unat (target_tick_interval_ns example_generator) = 10000000"
    by (simp_all add: example_generator_def)
  have h5: "(2 :: nat) \<le> 3" and h6: "3 \<le> length (replicate 3 example_tick)" by simp_all
  have now: "unat (now_ns example_clock) = 1500" by (simp add: example_clock_def)
  have fits: "unat (now_ns example_clock)
     + (3 - 1) * (unat (target_tick_interval_ns example_generator)
                  + unat (target_tick_interval_ns example_generator) div 10) < (2 :: nat) ^ 64"
    unfolding iv now by simp
  from example_generator_inv have h1: "gen_inv example_generator"
    and h2: "1 \<le> unat (num_symbols example_generator)"
    and h3: "1 \<le> unat (num_venues example_generator)" by simp_all
  from generate_tick_batch_timestamps_no_wrap [OF h1 h2 h3 h4 h5 h6, of "\<lambda>i. example_clock" 1000 5000]
  obtain out g' where out: "generate_tick_batch example_generator (\<lambda>i. example_clock) 1000 5000
        (replicate 3 example_tick) 3 = Some (out, g')"
    and first: "MarketTick.timestamp_ns (out ! 0) = now_ns example_clock"
    and room: "unat (now_ns example_clock)
              + (3 - 1) * (unat (target_tick_interval_ns example_generator)
                           + unat (target_tick_interval_ns example_generator) div 10) < 2 ^ 64 \<longrightarrow>
            (\<forall>i. 1 \<le> i \<and> i < 3 \<longrightarrow>
               MarketTick.timestamp_ns (out ! (i - 1)) < MarketTick.timestamp_ns (out ! i) \<and>
               unat (MarketTick.timestamp_ns (out ! (i - 1)))
                 + unat (target_tick_interval_ns example_generator)
                 \<le> unat (MarketTick.timestamp_ns (out ! i)))"
    by blast
  from room fits have all: "\<And>i. 1 \<le> i \<Longrightarrow> i < 3 \<Longrightarrow>
               MarketTick.timestamp_ns (out ! (i - 1)) < MarketTick.timestamp_ns (out ! i) \<and>
               unat (MarketTick.timestamp_ns (out ! (i - 1))) + 10000000
                 \<le> unat (MarketTick.timestamp_ns (out ! i))"
    unfolding iv by blast
  from all [of 1] all [of 2] out first h1 h2 h3 h4 fits show ?thesis
    by (simp add: example_clock_def)
qed

text \<open>
  Claim C8 as stated fails: the timestamps are 64-bit unsigned and the sum wraps. Here the
  first call reads the clock in the last nanosecond that 64 bits can count, the interval
  is positive, and the second timestamp, the first plus the interval plus the jitter
  modulo \<open>2^64\<close>, is below the first.
\<close>

theorem generate_tick_batch_wrap_counterexample:
  "gen_inv example_generator \<and> 1 \<le> unat (num_symbols example_generator) \<and>
   1 \<le> unat (num_venues example_generator) \<and>
   0 < target_tick_interval_ns example_generator \<and>
   generate_tick_batch example_generator (\<lambda>i. last_clock) 18446744073709551000
       18446744073709551615 (replicate 2 example_tick) 2 \<noteq> None \<and>
   MarketTick.timestamp_ns
     (fst (the (generate_tick_batch example_generator (\<lambda>i. last_clock) 18446744073709551000
                  18446744073709551615 (replicate 2 example_tick) 2)) ! 0)
     = 18446744073709551615 \<and>
   MarketTick.timestamp_ns
     (fst (the (generate_tick_batch example_generator (\<lambda>i. last_clock) 18446744073709551000
                  18446744073709551615 (replicate 2 example_tick) 2)) ! 1)
     < MarketTick.timestamp_ns
         (fst (the (generate_tick_batch example_generator (\<lambda>i. last_clock) 18446744073709551000
                      18446744073709551615 (replicate 2 example_tick) 2)) ! 0)"
proof -
  from example_generator_inv have h1: "gen_inv example_generator"
    and h2: "1 \<le> unat (num_symbols example_generator)"
    and h3: "1 \<le> unat (num_venues example_generator)" by simp_all
  have h4: "0 < target_tick_interval_ns example_generator"
    and iv: "target_tick_interval_ns example_generator = 10000000"
    by (simp_all add: example_generator_def)
  have rng: "rng_state example_generator
               = (xorshift64 ^^ (8 * 0 - 1)) (rng_state example_generator)" by simp
  have len: "2 \<le> length (replicate 2 example_tick)" by simp
  have two: "(0 :: nat) \<le> 2" by simp
  from batch_loop_spec [of example_generator 10000000 2 "replicate 2 example_tick" 0
         "rng_state example_generator" "\<lambda>i. last_clock", OF h1 h2 h3 iv len two rng]
  obtain out g' where spec: "batch_loop example_generator (\<lambda>i. last_clock)
                              (replicate 2 example_tick) 2 0 = Some (out, g') \<and>
           length out = length (replicate 2 example_tick) \<and>
           (\<forall>k<0. out ! k = replicate 2 example_tick ! k) \<and>
           ((0 :: nat) = 0 \<and> (0 :: nat) < 2 \<longrightarrow>
              (\<exists>g1. generate_tick example_generator last_clock = Some (out ! 0, g1)) \<and>
              MarketTick.timestamp_ns (out ! 0) = now_ns last_clock) \<and>
           (\<forall>k. 0 \<le> k \<and> k < 2 \<and> 0 < k \<longrightarrow>
              (\<exists>j :: u32.
                 fast_random_uint32 ((xorshift64 ^^ (8 * k + 6)) (rng_state example_generator)) 0
                     (ucast ((10000000 :: u64) div 10))
                   = Some (j, xorshift64 ((xorshift64 ^^ (8 * k + 6)) (rng_state example_generator))) \<and>
                 unat j \<le> unat (10000000 :: u64) div 10 \<and>
                 MarketTick.timestamp_ns (out ! k)
                   = MarketTick.timestamp_ns (out ! (k - 1)) + (10000000 + ucast j)))"
    by (elim exE) (rule that)
  note out = spec [THEN conjunct1]
  note first' = spec [THEN conjunct2, THEN conjunct2, THEN conjunct2, THEN conjunct1]
  note step = spec [THEN conjunct2, THEN conjunct2, THEN conjunct2, THEN conjunct2]
  from first' have first: "MarketTick.timestamp_ns (out ! 0) = now_ns last_clock" by simp
  from step [rule_format, of 1] obtain j :: u32 where j: "unat j \<le> 1000000"
    and t1: "MarketTick.timestamp_ns (out ! 1)
               = MarketTick.timestamp_ns (out ! 0) + (10000000 + ucast j)"
    by auto
  have t0: "MarketTick.timestamp_ns (out ! 0) = 18446744073709551615"
    using first by (simp add: last_clock_def)
  have uj: "unat (ucast j :: u64) = unat j" by (rule unat_ucast_32_64)
  have "unat (10000000 :: u64) + unat (ucast j :: u64) < 2 ^ LENGTH(64)" using j uj by simp
  then have sum: "unat (10000000 + ucast j :: u64) = 10000000 + unat j"
    using uj unat_add_lem [of "10000000 :: u64" "ucast j"] by simp
  then have "0 < unat (10000000 + ucast j :: u64)" by simp
  from wrapped_step [OF this]
  have "unat (MarketTick.timestamp_ns (out ! 1)) = 10000000 + unat j - 1"
    unfolding t1 t0 sum .
  then have "unat (MarketTick.timestamp_ns (out ! 1)) < unat (MarketTick.timestamp_ns (out ! 0))"
    using j t0 by simp
  then have less: "MarketTick.timestamp_ns (out ! 1) < MarketTick.timestamp_ns (out ! 0)"
    by (simp add: word_less_nat_alt)
  have "generate_tick_batch example_generator (\<lambda>i. last_clock) 18446744073709551000
          18446744073709551615 (replicate 2 example_tick) 2
        = Some (out, g'\<lparr>generation_time_ns := generation_time_ns g'
                          + (18446744073709551615 - 18446744073709551000)\<rparr>)"
    by (simp add: generate_tick_batch_def out)
  with h1 h2 h3 h4 t0 less show ?thesis by simp
qed

section \<open>The foreign-call boundary\<close>

text \<open>
  Claim C9, as amended. \<open>generate_tick_c\<close> and \<open>process_tick_c\<close> return 0 and leave the
  generator, the processor and the output slot as they are when a pointer argument is null.
  With all pointers non-null, \<open>process_tick_c\<close> returns 1 with the features of
  \<open>process_tick\<close> (no history) in the output slot, and \<open>generate_tick_c\<close> returns 1 with
  the generated tick in the output slot provided the generator, in a state satisfying
  \<open>gen_inv\<close>, has at least one configured symbol and one configured venue.
\<close>

theorem flat_calls_null_and_success:
  assumes "gen_inv g" and "1 \<le> unat (num_symbols g)" and "1 \<le> unat (num_venues g)"
  shows "generate_tick_c None output clk = Some (0, None, output) \<and>
         generate_tick_c gen None clk = Some (0, gen, None) \<and>
         process_tick_c None input features_out features0 t_start t_end
           = Some (0, None, features_out) \<and>
         process_tick_c proc None features_out features0 t_start t_end
           = Some (0, proc, features_out) \<and>
         process_tick_c proc input None features0 t_start t_end = Some (0, proc, None) \<and>
         (\<exists>t g'. generate_tick g clk = Some (t, g') \<and>
                  generate_tick_c (Some g) (Some slot) clk = Some (1, Some g', Some t)) \<and>
         (\<exists>f p'. process_tick p features0 tick None 0 t_start t_end = Some (f, p') \<and>
                  process_tick_c (Some p) (Some tick) (Some features_slot) features0 t_start t_end
                    = Some (1, Some p', Some f))"
proof -
  obtain t g' where gt: "generate_tick g clk = Some (t, g')"
    using generate_tick_step [OF assms, of clk] by blast
  have pt: "process_tick p features0 tick None 0 t_start t_end \<noteq> None"
    by (simp add: process_tick_no_history_eval)
  then obtain f p' where pt': "process_tick p features0 tick None 0 t_start t_end = Some (f, p')"
    by (cases "process_tick p features0 tick None 0 t_start t_end") auto
  show ?thesis
    by (simp add: generate_tick_c_def process_tick_c_def gt pt')
qed

theorem flat_calls_null_and_success_witness:
  "gen_inv example_generator \<and> 1 \<le> unat (num_symbols example_generator) \<and>
   1 \<le> unat (num_venues example_generator) \<and>
   generate_tick_c None (Some example_tick) example_clock = Some (0, None, Some example_tick) \<and>
   generate_tick_c (Some example_generator) None example_clock
     = Some (0, Some example_generator, None) \<and>
   process_tick_c None (Some example_tick) (Some stale_features) stale_features 1000 2000
     = Some (0, None, Some stale_features) \<and>
   process_tick_c (Some example_processor) None (Some stale_features) stale_features 1000 2000
     = Some (0, Some example_processor, Some stale_features) \<and>
   process_tick_c (Some example_processor) (Some example_tick) None stale_features 1000 2000
     = Some (0, Some example_processor, None) \<and>
   (\<exists>t g'. generate_tick example_generator example_clock = Some (t, g') \<and>
            generate_tick_c (Some example_generator) (Some example_tick) example_clock
              = Some (1, Some g', Some t)) \<and>
   (\<exists>f p'. process_tick example_processor stale_features example_tick None 0 1000 2000 = Some (f, p') \<and>
            process_tick_c (Some example_processor) (Some example_tick) (Some stale_features)
              stale_features 1000 2000 = Some (1, Some p', Some f))"
  using example_generator_inv
    flat_calls_null_and_success [of example_generator "Some example_tick" example_clock
      "Some example_generator" "Some example_tick" "Some stale_features" stale_features 1000 2000
      "Some example_processor" example_tick example_processor example_tick stale_features]
  by blast

lemma init_venue_loop_same:
  "\<forall>k. i \<le> k \<and> k < n \<longrightarrow> vs ! k = venue_configs ! k \<Longrightarrow>
   init_venue_loop venue_configs n i vs = vs"
proof (induction venue_configs n i vs rule: init_venue_loop.induct)
  case (1 venue_configs n i vs)
  show ?case
  proof (cases "i < n")
    case True
    then have "vs[i := venue_configs ! i] = vs" using "1.prems" by (metis list_update_id order_refl)
    with True "1.IH" "1.prems" show ?thesis
      by (subst init_venue_loop.simps) simp
  next
    case False
    then show ?thesis by (subst init_venue_loop.simps) simp
  qed
qed

text \<open>
  Claim C9 as stated fails for \<open>generate_tick_c\<close>: \<open>initialize_symbols_c\<close> with a symbol
  count of 0 succeeds and leaves a generator without symbols, and on that generator, with
  both pointers non-null, \<open>total_weight\<close> is 0, the range of the first draw wraps to 0 and
  the remainder by it is undefined, so the call does not return 1.
\<close>

theorem generate_tick_c_counterexample:
  "initialize_symbols_c (Some example_generator) (Some []) 0 = Some (1, Some empty_generator) \<and>
   generate_tick_c (Some empty_generator) (Some example_tick) example_clock = None"
proof -
  have len: "length DEFAULT_VENUES = 5" by (simp add: DEFAULT_VENUES_def)
  have v: "init_venue_loop DEFAULT_VENUES 5 0 (DEFAULT_VENUES @ replicate 3 unconfigured_venue)
           = DEFAULT_VENUES @ replicate 3 unconfigured_venue"
    by (rule init_venue_loop_same) (simp add: nth_append len)
  have "initialize_symbols example_generator [] DEFAULT_VENUES = Some empty_generator"
    unfolding initialize_symbols_def
    by (simp add: init_symbol_loop.simps MAX_VENUES_def example_generator_def empty_generator_def
        v len)
  then have a: "initialize_symbols_c (Some example_generator) (Some []) 0
                = Some (1, Some empty_generator)"
    by (simp add: initialize_symbols_c_def)
  have "sum_weights (symbols empty_generator) (unat (num_symbols empty_generator)) 0 0 = 0"
    by (simp add: empty_generator_def sum_weights.simps)
  then have "generate_tick empty_generator example_clock = None"
    by (simp add: generate_tick_def fast_random_uint32_def Let_def)
  then have "generate_tick_c (Some empty_generator) (Some example_tick) example_clock = None"
    by (simp add: generate_tick_c_def)
  with a show ?thesis by simp
qed

end
